theory Spec2Isabelle
  imports Complex_Main
begin

section \<open>A fragment of the type language\<close>

text \<open>
  The type aliases of the source are functions from types to types, evaluated
  by the type checker.  They are modelled over the following fragment of the
  type language, under \<^verbatim>\<open>strictNullChecks\<close> and without
  \<^verbatim>\<open>exactOptionalPropertyTypes\<close>:
  \<^item> a property type is \<^verbatim>\<open>unknown\<close> or a union of \<^verbatim>\<open>undefined\<close>,
    \<^verbatim>\<open>string\<close>, \<^verbatim>\<open>number\<close>, \<^verbatim>\<open>true\<close>, \<^verbatim>\<open>false\<close> and string
    and number literal types (\<^verbatim>\<open>never\<close> is the empty union, \<^verbatim>\<open>boolean\<close>
    is \<^verbatim>\<open>false | true\<close>);
  \<^item> an object shape is a list of properties, each with its key, its
    \<^verbatim>\<open>?\<close> and \<^verbatim>\<open>readonly\<close> modifiers and its declared type;
  \<^item> an options type is a mutable array, a readonly array or a readonly tuple
    of object shapes; the list holds the members of the element union (for a
    tuple, the element types).
  An object shape is assignable to a union of object shapes when it is
  assignable to a member, or through the checker's relation between an object
  and a discriminated union.
\<close>

datatype atom = AUndefined | AString | ANumber | ABool bool | AStrLit string | ANumLit int

datatype vty = Unknown | UnionT "atom list"

abbreviation TNever :: vty where "TNever \<equiv> UnionT []"
abbreviation TUndefined :: vty where "TUndefined \<equiv> UnionT [AUndefined]"
abbreviation TString :: vty where "TString \<equiv> UnionT [AString]"
abbreviation TNumber :: vty where "TNumber \<equiv> UnionT [ANumber]"
abbreviation TBoolean :: vty where "TBoolean \<equiv> UnionT [ABool False, ABool True]"

record 'v property =
  pkey :: string
  optional :: bool
  readonly :: bool
  pty :: 'v

type_synonym 'v shape = "'v property list"

datatype options_ty =
    ArrayT "vty shape list"
  | ReadonlyArrayT "vty shape list"
  | ReadonlyTupleT "vty shape list"

fun elems :: "options_ty \<Rightarrow> vty shape list" where
  "elems (ArrayT S) = S"
| "elems (ReadonlyArrayT S) = S"
| "elems (ReadonlyTupleT S) = S"

text \<open>Patterns: the right-hand sides of \<^verbatim>\<open>extends\<close>.  A property type of
  a pattern is the inference site \<^verbatim>\<open>infer Value\<close> or a type; an element
  of a pattern is an object shape, or \<^verbatim>\<open>Record<any, any> & shape\<close>.\<close>

datatype pat = Infer | Fixed vty

datatype target = Obj "pat shape" | RecordAnyAnd "pat shape"

datatype array_pat = ArrayP "target list" | ReadonlyArrayP "target list"

fun pat_elems :: "array_pat \<Rightarrow> target list" where
  "pat_elems (ArrayP T) = T"
| "pat_elems (ReadonlyArrayP T) = T"

fun target_shape :: "target \<Rightarrow> pat shape" where
  "target_shape (Obj t) = t"
| "target_shape (RecordAnyAnd t) = t"

subsection \<open>Unions and assignability of property types\<close>

fun atom_sub :: "atom \<Rightarrow> atom \<Rightarrow> bool" where
  "atom_sub (AStrLit s) AString = True"
| "atom_sub (ANumLit n) ANumber = True"
| "atom_sub a b = (a = b)"

fun vty_sub :: "vty \<Rightarrow> vty \<Rightarrow> bool" where
  "vty_sub t Unknown = True"
| "vty_sub Unknown (UnionT bs) = False"
| "vty_sub (UnionT as) (UnionT bs) = list_all (\<lambda>a. list_ex (atom_sub a) bs) as"

text \<open>A union lists each constituent once and drops a literal type beside
  its base type.\<close>

definition reduce :: "atom list \<Rightarrow> atom list" where
  "reduce as = (let ds = remdups as in filter (\<lambda>a. \<not> list_ex (\<lambda>b. b \<noteq> a \<and> atom_sub a b) ds) ds)"

fun atoms :: "vty \<Rightarrow> atom list" where
  "atoms Unknown = []"
| "atoms (UnionT as) = as"

definition vunion :: "vty list \<Rightarrow> vty" where
  "vunion ts = (if Unknown \<in> set ts then Unknown else UnionT (reduce (concat (map atoms ts))))"

fun vty_identical :: "vty \<Rightarrow> vty \<Rightarrow> bool" where
  "vty_identical Unknown Unknown = True"
| "vty_identical (UnionT as) (UnionT bs) = (set (reduce as) = set (reduce bs))"
| "vty_identical a b = False"

subsection \<open>Object shapes\<close>

definition keys :: "'v shape \<Rightarrow> string list" where
  "keys s = map pkey s"

definition lookup :: "'v shape \<Rightarrow> string \<Rightarrow> 'v property option" where
  "lookup s k = find (\<lambda>p. pkey p = k) s"

text \<open>The type read from a property: an optional property also reads
  \<^verbatim>\<open>undefined\<close>.\<close>

definition readable :: "vty property \<Rightarrow> vty" where
  "readable p = (if optional p then vunion [pty p, TUndefined] else pty p)"

text \<open>\<^verbatim>\<open>keyof\<close> of a union of object shapes: the keys that every member
  has.  (The empty union is \<^verbatim>\<open>never\<close>, whose \<^verbatim>\<open>keyof\<close> is every key:
  it is outside the fragment.)\<close>

fun keyof :: "'v shape list \<Rightarrow> string list" where
  "keyof [] = []"
| "keyof [s] = keys s"
| "keyof (s # ss) = filter (\<lambda>k. k \<in> set (keyof ss)) (keys s)"

text \<open>\<^verbatim>\<open>Exclude<Keys, Ex>\<close> on unions of literal keys.\<close>

definition Exclude :: "string list \<Rightarrow> string list \<Rightarrow> string list" where
  "Exclude ks ex = filter (\<lambda>k. k \<notin> set ex) ks"

text \<open>The mapped type \<^verbatim>\<open>{ [K in Ks]?: never }\<close>.\<close>

definition optional_never :: "string list \<Rightarrow> vty shape" where
  "optional_never ks =
     map (\<lambda>k. \<lparr>pkey = k, optional = True, readonly = False, pty = TNever\<rparr>) (remdups ks)"

text \<open>The intersection \<^verbatim>\<open>A & B\<close> of two object shapes with no key in
  common has the properties of both.\<close>

definition intersection :: "'v shape \<Rightarrow> 'v shape \<Rightarrow> 'v shape" where
  "intersection a b = a @ b"

text \<open>Identity of object types: the same keys, and for each key the same
  modifiers and identical types.\<close>

definition identical :: "vty shape \<Rightarrow> vty shape \<Rightarrow> bool" where
  "identical s t =
     (set (keys s) = set (keys t) \<and>
      list_all (\<lambda>p. case lookup t (pkey p) of
                      None \<Rightarrow> False
                    | Some q \<Rightarrow> optional p = optional q \<and> readonly p = readonly q
                               \<and> vty_identical (readable p) (readable q)) s)"

subsection \<open>Assignability to a pattern\<close>

definition fixed_prop :: "pat property \<Rightarrow> vty property option" where
  "fixed_prop p =
     (case pty p of
        Infer \<Rightarrow> None
      | Fixed v \<Rightarrow> Some \<lparr>pkey = pkey p, optional = optional p, readonly = readonly p, pty = v\<rparr>)"

fun fixed_shape :: "pat shape \<Rightarrow> vty shape option" where
  "fixed_shape [] = Some []"
| "fixed_shape (p # ps) =
     (case fixed_prop p of
        None \<Rightarrow> None
      | Some q \<Rightarrow> (case fixed_shape ps of None \<Rightarrow> None | Some qs \<Rightarrow> Some (q # qs)))"

definition to_pat :: "vty shape \<Rightarrow> pat shape" where
  "to_pat s = map (\<lambda>p. \<lparr>pkey = pkey p, optional = optional p, readonly = readonly p,
                         pty = Fixed (pty p)\<rparr>) s"

text \<open>Property by property: a required property of the target must be a
  required property of the source, and the type read from the source property
  must be assignable to the type read from the target property.  Properties
  the target does not name are ignored, and so are \<^verbatim>\<open>readonly\<close> modifiers.\<close>

definition props_related :: "vty shape \<Rightarrow> pat shape \<Rightarrow> bool" where
  "props_related s t =
     list_all (\<lambda>tp. case lookup s (pkey tp) of
                       None \<Rightarrow> optional tp
                     | Some sp \<Rightarrow>
                         (optional tp \<or> \<not> optional sp) \<and>
                         (case fixed_prop tp of
                            None \<Rightarrow> False
                          | Some tq \<Rightarrow> vty_sub (readable sp) (readable tq))) t"

text \<open>A weak type has properties, all optional; a source with properties but
  none in common with a weak target is not assignable to it.  The check is not
  made against the members of an intersection.\<close>

definition weak :: "'v shape \<Rightarrow> bool" where
  "weak t = (t \<noteq> [] \<and> list_all optional t)"

definition common_property :: "'v shape \<Rightarrow> 'w shape \<Rightarrow> bool" where
  "common_property s t = list_ex (\<lambda>p. pkey p \<in> set (keys t)) s"

fun shape_related :: "vty shape \<Rightarrow> target \<Rightarrow> bool" where
  "shape_related s (Obj t) =
     ((if weak t \<and> s \<noteq> [] then common_property s t else True) \<and> props_related s t)"
| "shape_related s (RecordAnyAnd t) = props_related s t"

subsection \<open>Assignability to a discriminated union\<close>

text \<open>
  When an object shape is assignable to no single member of a union of object
  shapes, the checker tries the union as a discriminated union.  A property of
  the union is a discriminant when it has at least two different types among
  the members that declare it, one of them a literal type (\<^verbatim>\<open>boolean\<close>,
  or a union of \<^verbatim>\<open>undefined\<close>, \<^verbatim>\<open>true\<close>, \<^verbatim>\<open>false\<close> and string and
  number literals).
\<close>

fun literal_vty :: "vty \<Rightarrow> bool" where
  "literal_vty Unknown = False"
| "literal_vty (UnionT as) = (as \<noteq> [] \<and> list_all (\<lambda>a. a \<noteq> AString \<and> a \<noteq> ANumber) as)"

definition prop_types :: "target list \<Rightarrow> string \<Rightarrow> vty list" where
  "prop_types T k =
     concat (map (\<lambda>t. case lookup (target_shape t) k of
                          None \<Rightarrow> []
                        | Some tp \<Rightarrow> (case fixed_prop tp of
                                       None \<Rightarrow> []
                                     | Some tq \<Rightarrow> [readable tq])) T)"

definition discriminant :: "target list \<Rightarrow> string \<Rightarrow> bool" where
  "discriminant T k =
     (case prop_types T k of
        [] \<Rightarrow> False
      | t0 # ts \<Rightarrow> list_ex (\<lambda>t. \<not> vty_identical t t0) ts \<and> list_ex literal_vty (t0 # ts))"

text \<open>The constituents of the type of a discriminant property of the source.\<close>

fun constituents :: "vty \<Rightarrow> vty list" where
  "constituents Unknown = [Unknown]"
| "constituents (UnionT as) =
     (if reduce as = [] then [TNever] else map (\<lambda>a. UnionT [a]) (reduce as))"

text \<open>A member of the union matches a combination of constituents, one for
  each discriminant property of the source, when it declares each of these
  properties with a type that the constituent is assignable to; here the
  \<^verbatim>\<open>?\<close> modifiers are not compared.\<close>

definition combination_matches :: "(string \<times> vty) list \<Rightarrow> target \<Rightarrow> bool" where
  "combination_matches combo t =
     list_all (\<lambda>kc. case lookup (target_shape t) (fst kc) of
                       None \<Rightarrow> False
                     | Some tp \<Rightarrow> (case fixed_prop tp of
                                    None \<Rightarrow> False
                                  | Some tq \<Rightarrow> vty_sub (snd kc) (readable tq))) combo"

text \<open>The properties of the source against those of a matching member, the
  discriminants left out: a required property of the member must still be a
  property of the source.\<close>

definition props_related_except :: "string list \<Rightarrow> vty shape \<Rightarrow> pat shape \<Rightarrow> bool" where
  "props_related_except ex s t =
     list_all (\<lambda>tp. case lookup s (pkey tp) of
                       None \<Rightarrow> optional tp
                     | Some sp \<Rightarrow>
                         pkey tp \<in> set ex \<or>
                         ((optional tp \<or> \<not> optional sp) \<and>
                          (case fixed_prop tp of
                             None \<Rightarrow> False
                           | Some tq \<Rightarrow> vty_sub (readable sp) (readable tq)))) t"

fun is_Obj :: "target \<Rightarrow> bool" where
  "is_Obj (Obj t) = True"
| "is_Obj (RecordAnyAnd t) = False"

text \<open>
  The relation: the source has a discriminant property; the combinations of
  constituents of its discriminant properties number at most 25; every
  combination is matched by a member of the union; and the source is related,
  discriminants left out, to every member that matches a combination.  (Only
  unions of plain object shapes are taken as discriminated unions; the source
  has no other.)
\<close>

definition discriminated_related :: "vty shape \<Rightarrow> target list \<Rightarrow> bool" where
  "discriminated_related s T =
     (let D = filter (\<lambda>sp. discriminant T (pkey sp)) s;
          combos = product_lists
                     (map (\<lambda>sp. map (\<lambda>c. (pkey sp, c)) (constituents (readable sp))) D);
          matching = map (\<lambda>combo. filter (combination_matches combo) T) combos
      in list_all is_Obj T
         \<and> D \<noteq> []
         \<and> prod_list (map (\<lambda>sp. length (constituents (readable sp))) D) \<le> 25
         \<and> list_all (\<lambda>m. m \<noteq> []) matching
         \<and> list_all (\<lambda>t. props_related_except (map pkey D) s (target_shape t))
              (concat matching))"

definition member_related :: "vty shape \<Rightarrow> target list \<Rightarrow> bool" where
  "member_related s T = (list_ex (shape_related s) T \<or> discriminated_related s T)"

text \<open>\<^verbatim>\<open>A extends P\<close> for arrays: a readonly array or tuple is not
  assignable to a mutable array; otherwise every member of the element type
  must be assignable to the target's element type.\<close>

fun assignable :: "options_ty \<Rightarrow> array_pat \<Rightarrow> bool" where
  "assignable (ArrayT S) (ArrayP T) = list_all (\<lambda>s. member_related s T) S"
| "assignable (ReadonlyArrayT S) (ArrayP T) = False"
| "assignable (ReadonlyTupleT S) (ArrayP T) = False"
| "assignable A (ReadonlyArrayP T) = list_all (\<lambda>s. member_related s T) (elems A)"

subsection \<open>Inference for \<^verbatim>\<open>infer Value\<close>\<close>

text \<open>
  A candidate carries a priority: 0, or 1 for the lower-priority inference made
  when every source constituent has been matched away.  From a source type to
  the target \<^verbatim>\<open>Value\<close> the candidate is the source; to the target
  \<^verbatim>\<open>Value | undefined\<close> of an optional property, \<^verbatim>\<open>undefined\<close> is first
  matched away on both sides.
\<close>

fun infer_vty :: "vty \<Rightarrow> bool \<Rightarrow> (nat \<times> vty) list" where
  "infer_vty src False = [(0, src)]"
| "infer_vty Unknown True = [(0, Unknown)]"
| "infer_vty (UnionT as) True =
     (if AUndefined \<in> set as
      then (let rest = filter (\<lambda>a. a \<noteq> AUndefined) as
            in if rest = [] then [(1, TUndefined)] else [(0, UnionT rest)])
      else [(0, UnionT as)])"

definition infer_shape :: "vty shape \<Rightarrow> pat shape \<Rightarrow> (nat \<times> vty) list" where
  "infer_shape s t =
     concat (map (\<lambda>tp. case pty tp of
                          Fixed v \<Rightarrow> []
                        | Infer \<Rightarrow> (case lookup s (pkey tp) of
                                       None \<Rightarrow> []
                                     | Some sp \<Rightarrow> infer_vty (readable sp) (optional tp))) t)"

definition infer_members :: "vty shape list \<Rightarrow> target list \<Rightarrow> (nat \<times> vty) list" where
  "infer_members S T = concat (map (\<lambda>t. concat (map (\<lambda>s. infer_shape s (target_shape t)) S)) T)"

text \<open>A source constituent matches a target constituent when the target has
  no inference site and the two are identical.\<close>

fun matches :: "vty shape \<Rightarrow> target \<Rightarrow> bool" where
  "matches s (Obj t) = (case fixed_shape t of None \<Rightarrow> False | Some t' \<Rightarrow> identical s t')"
| "matches s (RecordAnyAnd t) = False"

text \<open>From the element union of the source to the element union of the
  pattern: identical constituents are removed from both sides first; if no
  source constituent is left, the whole source is used at the lower priority.\<close>

definition infer_elems :: "vty shape list \<Rightarrow> target list \<Rightarrow> (nat \<times> vty) list" where
  "infer_elems S T =
     (let S' = filter (\<lambda>s. \<not> list_ex (matches s) T) S;
          T' = filter (\<lambda>t. \<not> list_ex (\<lambda>s. matches s t) S) T
      in if T' = [] then []
         else if S' = [] then map (\<lambda>c. (1, snd c)) (infer_members S T')
         else infer_members S' T')"

definition infer_types :: "options_ty \<Rightarrow> array_pat \<Rightarrow> (nat \<times> vty) list" where
  "infer_types A P = infer_elems (elems A) (pat_elems P)"

text \<open>The inferred type: the union of the candidates of the best priority,
  \<^verbatim>\<open>unknown\<close> without a candidate.\<close>

definition inferred :: "(nat \<times> vty) list \<Rightarrow> vty" where
  "inferred cs =
     (if cs = [] then Unknown
      else (let best = filter (\<lambda>c. fst c = 0) cs
            in vunion (map snd (if best = [] then cs else best))))"

text \<open>The keys that appear in some member of a union of object shapes.\<close>

definition all_member_keys :: "'v shape list \<Rightarrow> string list" where
  "all_member_keys S = remdups (concat (map keys S))"

text \<open>The types read from the \<^verbatim>\<open>value\<close> properties of the members of a
  union of object shapes that have one.\<close>

definition value_types :: "vty shape list \<Rightarrow> vty list" where
  "value_types S =
     concat (map (\<lambda>s. case lookup s ''value'' of None \<Rightarrow> [] | Some p \<Rightarrow> [readable p]) S)"

section \<open>The type aliases of the source\<close>

text \<open>
  \<^verbatim>\<open>
  type KeyofOptions<A extends Readonly<IAnyObject[]>> = A extends (infer T)[]
    ? keyof T
    : never;
  \<close>
  Only a mutable array matches \<^verbatim>\<open>(infer T)[]\<close>, with \<open>T\<close> its element type.
\<close>

fun KeyofOptions :: "options_ty \<Rightarrow> string list" where
  "KeyofOptions (ArrayT T) = keyof T"
| "KeyofOptions (ReadonlyArrayT T) = []"
| "KeyofOptions (ReadonlyTupleT T) = []"

text \<open>\<^verbatim>\<open>type Merge<T> = { [K in keyof T]: T[K] }\<close>: a homomorphic mapped
  type, which keeps every property with its modifiers and its type.\<close>

definition Merge :: "'v shape \<Rightarrow> 'v shape" where
  "Merge T = map (\<lambda>p. p) T"

text \<open>
  \<^verbatim>\<open>
  type ExcludeOptionTypeInUnion<Keys, ExcludeOptionType> = Merge<
    { [K in Exclude<Keys, keyof ExcludeOptionType>]?: never } & ExcludeOptionType
  >;
  \<close>
\<close>

definition ExcludeOptionTypeInUnion :: "string list \<Rightarrow> vty shape \<Rightarrow> vty shape" where
  "ExcludeOptionTypeInUnion Keys ExcludeOptionType =
     Merge (intersection (optional_never (Exclude Keys (keyof [ExcludeOptionType])))
                         ExcludeOptionType)"

text \<open>\<^verbatim>\<open>type HaveValueOption<Value> = { value: Value }\<close>\<close>

definition HaveValueOption :: "pat \<Rightarrow> pat shape" where
  "HaveValueOption Value = [\<lparr>pkey = ''value'', optional = False, readonly = False, pty = Value\<rparr>]"

text \<open>
  \<^verbatim>\<open>
  type HaveValueOptionInUnion<Options, ExcludeOptionType, Value> = (
    | HaveValueOption<Value>
    | ExcludeOptionTypeInUnion<KeyofOptions<Options>, ExcludeOptionType>
  )[];
  \<close>
\<close>

definition HaveValueOptionInUnion :: "options_ty \<Rightarrow> vty shape \<Rightarrow> pat \<Rightarrow> array_pat" where
  "HaveValueOptionInUnion Options ExcludeOptionType Value =
     ArrayP [Obj (HaveValueOption Value),
             Obj (to_pat (ExcludeOptionTypeInUnion (KeyofOptions Options) ExcludeOptionType))]"

text \<open>\<^verbatim>\<open>type MaybeHaveValueOptionInUnion<T> = Record<any, any> & { value?: T }\<close>\<close>

definition MaybeHaveValueOptionInUnion :: "pat \<Rightarrow> target" where
  "MaybeHaveValueOptionInUnion T =
     RecordAnyAnd [\<lparr>pkey = ''value'', optional = True, readonly = False, pty = T\<rparr>]"

text \<open>\<^verbatim>\<open>Readonly<X[]>\<close> is \<^verbatim>\<open>readonly X[]\<close>.\<close>

fun Readonly :: "array_pat \<Rightarrow> array_pat" where
  "Readonly (ArrayP T) = ReadonlyArrayP T"
| "Readonly (ReadonlyArrayP T) = ReadonlyArrayP T"

text \<open>
  \<^verbatim>\<open>
  export type ValueOfOptions<Options, ExcludeOptionType> = Options extends Readonly<
    HaveValueOptionInUnion<Options, ExcludeOptionType, infer Value>
  >
    ? Value
    : Options extends Readonly<MaybeHaveValueOptionInUnion<infer Value>[]>
    ? Value | undefined
    : never;
  \<close>
  A conditional type with \<^verbatim>\<open>infer\<close> first infers \<open>Value\<close> from the
  checked type and the pattern, then tests assignability to the pattern with
  the inferred type in place of \<open>Value\<close>.
\<close>

definition ValueOfOptions :: "options_ty \<Rightarrow> vty shape \<Rightarrow> vty" where
  "ValueOfOptions Options ExcludeOptionType =
     (let Value = inferred (infer_types Options
                    (Readonly (HaveValueOptionInUnion Options ExcludeOptionType Infer)))
      in if assignable Options
              (Readonly (HaveValueOptionInUnion Options ExcludeOptionType (Fixed Value)))
         then Value
         else (let Value = inferred (infer_types Options
                             (Readonly (ArrayP [MaybeHaveValueOptionInUnion Infer])))
               in if assignable Options
                       (Readonly (ArrayP [MaybeHaveValueOptionInUnion (Fixed Value)]))
                  then vunion [Value, TUndefined]
                  else TNever))"

text \<open>\<^verbatim>\<open>type IsDividerOption = { isDivider: boolean }\<close>\<close>

definition IsDividerOption :: "vty shape" where
  "IsDividerOption = [\<lparr>pkey = ''isDivider'', optional = False, readonly = False, pty = TBoolean\<rparr>]"

text \<open>In the words of the specification, the value type captured by the first
  pattern: the union of the types of the \<^verbatim>\<open>value\<close> properties of the
  members of the element type other than the excluded variant (of all members
  when there is no other), \<^verbatim>\<open>unknown\<close> when no member has the property.\<close>

definition captured_Value :: "options_ty \<Rightarrow> vty shape \<Rightarrow> vty" where
  "captured_Value Options ExcludeOptionType =
     (let rest = filter (\<lambda>s. \<not> identical s
                                 (ExcludeOptionTypeInUnion (KeyofOptions Options) ExcludeOptionType))
                   (elems Options);
          ts = value_types (if rest = [] then elems Options else rest)
      in if ts = [] then Unknown else vunion ts)"

section \<open>The example literals and their types\<close>

datatype lit = LStr string | LNum int | LBool bool

type_synonym obj_lit = "(string \<times> lit) list"

fun literal_type :: "lit \<Rightarrow> vty" where
  "literal_type (LStr s) = UnionT [AStrLit s]"
| "literal_type (LNum n) = UnionT [ANumLit n]"
| "literal_type (LBool b) = UnionT [ABool b]"

fun widened :: "lit \<Rightarrow> vty" where
  "widened (LStr s) = TString"
| "widened (LNum n) = TNumber"
| "widened (LBool b) = TBoolean"

text \<open>\<^verbatim>\<open>typeof\<close> of an array literal \<^verbatim>\<open>as const\<close>: a readonly tuple of
  shapes with readonly properties of literal types.\<close>

definition typeof_const :: "obj_lit list \<Rightarrow> options_ty" where
  "typeof_const ls =
     ReadonlyTupleT
       (map (map (\<lambda>kv. \<lparr>pkey = fst kv, optional = False, readonly = True,
                         pty = literal_type (snd kv)\<rparr>)) ls)"

text \<open>\<^verbatim>\<open>typeof\<close> of a plain array literal: a mutable array of the union of
  the widened member shapes, each completed with the keys of its siblings as
  optional \<^verbatim>\<open>undefined\<close> properties (as the comment above
  \<^verbatim>\<open>ExcludeOptionTypeInUnion\<close> shows), identical members listed once.\<close>

definition normalized :: "string list \<Rightarrow> obj_lit \<Rightarrow> vty shape" where
  "normalized ks ob =
     map (\<lambda>kv. \<lparr>pkey = fst kv, optional = False, readonly = False, pty = widened (snd kv)\<rparr>) ob
     @ map (\<lambda>k. \<lparr>pkey = k, optional = True, readonly = False, pty = TUndefined\<rparr>)
         (filter (\<lambda>k. k \<notin> set (map fst ob)) ks)"

fun distinct_shapes :: "vty shape list \<Rightarrow> vty shape list" where
  "distinct_shapes [] = []"
| "distinct_shapes (s # ss) =
     s # distinct_shapes (filter (\<lambda>t. \<not> identical s t) ss)"

definition typeof_array :: "obj_lit list \<Rightarrow> options_ty" where
  "typeof_array ls =
     ArrayT (distinct_shapes (map (normalized (remdups (concat (map (map fst) ls)))) ls))"

definition constOptions :: "obj_lit list" where
  "constOptions = [[(''value'', LStr ''a'')], [(''value'', LStr ''b'')], [(''isDivider'', LBool False)]]"

definition constOptionalValueOptions :: "obj_lit list" where
  "constOptionalValueOptions =
     [[(''value'', LStr ''a'')], [(''value'', LStr ''b'')], [(''isDivider'', LBool False)],
      [(''label'', LStr ''a'')]]"

definition stringOptions :: "obj_lit list" where
  "stringOptions = [[(''value'', LStr ''a'')], [(''isDivider'', LBool False)]]"

definition numberOptions :: "obj_lit list" where
  "numberOptions = [[(''value'', LNum 1)], [(''isDivider'', LBool False)]]"

definition stringOptionalValueOptions :: "obj_lit list" where
  "stringOptionalValueOptions =
     [[(''value'', LStr ''a'')], [(''isDivider'', LBool False)], [(''label'', LStr ''def'')]]"

definition manyFieldOptions :: "obj_lit list" where
  "manyFieldOptions =
     [[(''value'', LStr ''a''), (''label'', LStr ''a''), (''className'', LStr ''abc'')],
      [(''value'', LStr ''b''), (''className'', LStr ''abc'')],
      [(''isDivider'', LBool True)]]"

text \<open>An options type written by hand, with an optional \<^verbatim>\<open>value\<close> and a
  divider that has a \<^verbatim>\<open>value\<close> of its own:
  \<^verbatim>\<open>({ value?: 'a'; isDivider: boolean } | { value: 0; isDivider: boolean })[]\<close>
  and \<^verbatim>\<open>{ value: 0; isDivider: boolean }\<close>.\<close>

definition optional_a_options :: options_ty where
  "optional_a_options =
     ArrayT [[\<lparr>pkey = ''value'', optional = True, readonly = False, pty = UnionT [AStrLit ''a'']\<rparr>,
              \<lparr>pkey = ''isDivider'', optional = False, readonly = False, pty = TBoolean\<rparr>],
             [\<lparr>pkey = ''value'', optional = False, readonly = False, pty = UnionT [ANumLit 0]\<rparr>,
              \<lparr>pkey = ''isDivider'', optional = False, readonly = False, pty = TBoolean\<rparr>]]"

definition zero_divider :: "vty shape" where
  "zero_divider =
     [\<lparr>pkey = ''value'', optional = False, readonly = False, pty = UnionT [ANumLit 0]\<rparr>,
      \<lparr>pkey = ''isDivider'', optional = False, readonly = False, pty = TBoolean\<rparr>]"

section \<open>The runtime harness \<open>testFunc\<close>\<close>

text \<open>
  Runtime values of the harness.  Objects and arrays live in a store and are
  passed by reference, so that "the entry itself" and "the options array is
  not changed" can be said.  A number value is the real it denotes.
\<close>

datatype jsval = JUndefined | JNull | JBool bool | JNum real | JStr string | JRef nat

datatype cell = ObjCell "(string \<times> jsval) list" | ArrCell "jsval list"

type_synonym store = "cell list"

datatype error = TypeError | Thrown jsval

text \<open>A callback takes its argument and the store, and returns the store it
  leaves behind, or throws.\<close>

type_synonym callback = "jsval \<Rightarrow> store \<Rightarrow> error + store"

definition alloc :: "store \<Rightarrow> cell \<Rightarrow> jsval \<times> store" where
  "alloc h c = (JRef (length h), h @ [c])"

definition deref :: "store \<Rightarrow> jsval \<Rightarrow> cell option" where
  "deref h v = (case v of JRef a \<Rightarrow> (if a < length h then Some (h ! a) else None) | _ \<Rightarrow> None)"

text \<open>
  \<^verbatim>\<open>'isDivider' in opt\<close>: a TypeError when \<open>opt\<close> is not an object; on an
  object, whether the key is present (neither \<^verbatim>\<open>Object.prototype\<close> nor
  \<^verbatim>\<open>Array.prototype\<close> has a property of that name).
\<close>

definition isDivider_in :: "store \<Rightarrow> jsval \<Rightarrow> error + bool" where
  "isDivider_in h opt =
     (case deref h opt of
        Some (ObjCell ps) \<Rightarrow> Inr (''isDivider'' \<in> set (map fst ps))
      | Some (ArrCell xs) \<Rightarrow> Inr False
      | None \<Rightarrow> Inl TypeError)"

text \<open>The loop of \<^verbatim>\<open>options.filter((opt) => 'isDivider' in opt)\<close>: the
  predicate runs on each element in order, the first error ends the loop.\<close>

fun filter_isDivider :: "store \<Rightarrow> jsval list \<Rightarrow> error + jsval list" where
  "filter_isDivider h [] = Inr []"
| "filter_isDivider h (x # xs) =
     (case isDivider_in h x of
        Inl e \<Rightarrow> Inl e
      | Inr b \<Rightarrow>
          (case filter_isDivider h xs of
             Inl e \<Rightarrow> Inl e
           | Inr ys \<Rightarrow> Inr (if b then x # ys else ys)))"

text \<open>
  Numbers are IEEE 754 doubles.  A finite double is \<open>m * 2 ^ e\<close> with
  \<open>\<bar>m\<bar> < 2 ^ 53\<close> and \<open>- 1074 \<le> e \<le> 971\<close>.  The product of two doubles is
  the exact product rounded to the nearest double, ties to the even
  significand: the spacing of the doubles around \<open>x\<close> is \<open>ulp x\<close>, and \<open>x\<close>
  is rounded to the nearest multiple of it.  (Overflow to infinity, beyond
  \<open>2 ^ 1024\<close>, is left out: the products of the harness stay below the length
  of an array.)
\<close>

definition pow2 :: "int \<Rightarrow> real" where
  "pow2 k = (if 0 \<le> k then 2 ^ nat k else 1 / 2 ^ nat (- k))"

definition is_double :: "real \<Rightarrow> bool" where
  "is_double x = (\<exists>m e. \<bar>m\<bar> < 2 ^ 53 \<and> - 1074 \<le> e \<and> e \<le> 971 \<and> x = of_int m * pow2 e)"

definition round_half_even :: "real \<Rightarrow> int" where
  "round_half_even q =
     (let f = \<lfloor>q\<rfloor>
      in if q - of_int f < 1 / 2 then f
         else if 1 / 2 < q - of_int f then f + 1
         else if even f then f else f + 1)"

definition ulp :: "real \<Rightarrow> real" where
  "ulp x = pow2 (max \<lfloor>log 2 \<bar>x\<bar>\<rfloor> (- 1022) - 52)"

definition round_double :: "real \<Rightarrow> real" where
  "round_double x = (if x = 0 then 0 else of_int (round_half_even (x / ulp x)) * ulp x)"

text \<open>\<^verbatim>\<open>Math.floor(Math.random() * n)\<close>, the draw \<open>rnd\<close> of
  \<^verbatim>\<open>Math.random()\<close> being an input of the model; the length \<open>n\<close> of an
  array is a double as it is.\<close>

definition randomIndex :: "real \<Rightarrow> nat \<Rightarrow> int" where
  "randomIndex rnd n = \<lfloor>round_double (rnd * real n)\<rfloor>"

text \<open>\<^verbatim>\<open>xs[i]\<close> on an array: \<^verbatim>\<open>undefined\<close> out of range.\<close>

definition array_get :: "jsval list \<Rightarrow> int \<Rightarrow> jsval" where
  "array_get xs i = (if 0 \<le> i \<and> i < int (length xs) then xs ! nat i else JUndefined)"

text \<open>
  \<^verbatim>\<open>
  function testFunc(options, onClick) {
    const filteredOptions = options.filter((opt) => 'isDivider' in opt);
    const randomIndex = Math.floor(Math.random() * filteredOptions.length);
    onClick(filteredOptions[randomIndex] as ValueOfOptions<T, IsDividerOption>);
  }
  \<close>
  The cast is erased at run time.  \<^verbatim>\<open>filter\<close> allocates a new array.
\<close>

definition testFunc :: "jsval \<Rightarrow> callback \<Rightarrow> real \<Rightarrow> store \<Rightarrow> error + store" where
  "testFunc options onClick rnd h =
     (case deref h options of
        Some (ArrCell xs) \<Rightarrow>
          (case filter_isDivider h xs of
             Inl e \<Rightarrow> Inl e
           | Inr ys \<Rightarrow>
               (case alloc h (ArrCell ys) of
                  (filteredOptions, h') \<Rightarrow>
                    (case deref h' filteredOptions of
                       Some (ArrCell zs) \<Rightarrow>
                         onClick (array_get zs (randomIndex rnd (length zs))) h'
                     | _ \<Rightarrow> Inl TypeError)))
      | _ \<Rightarrow> Inl TypeError)"

text \<open>An input of the static type \<^verbatim>\<open>Readonly<TestOptionType[]>\<close>: a
  reference to an array whose elements are references to objects.\<close>

definition is_object :: "store \<Rightarrow> jsval \<Rightarrow> bool" where
  "is_object h v = (case deref h v of Some (ObjCell ps) \<Rightarrow> True | _ \<Rightarrow> False)"

definition typed_options :: "store \<Rightarrow> jsval \<Rightarrow> bool" where
  "typed_options h options =
     (case deref h options of
        Some (ArrCell xs) \<Rightarrow> list_all (is_object h) xs
      | _ \<Rightarrow> False)"

text \<open>The elements of the options array.\<close>

definition entries :: "store \<Rightarrow> jsval \<Rightarrow> jsval list" where
  "entries h options = (case deref h options of Some (ArrCell xs) \<Rightarrow> xs | _ \<Rightarrow> [])"

text \<open>Whether an entry carries the key \<^verbatim>\<open>isDivider\<close>.\<close>

definition carries_isDivider :: "store \<Rightarrow> jsval \<Rightarrow> bool" where
  "carries_isDivider h v = (isDivider_in h v = Inr True)"

text \<open>A callback that records its argument in a new one-element array.\<close>

definition record_arg :: callback where
  "record_arg v h = Inr (h @ [ArrCell [v]])"

text \<open>The run-time value of an array literal of object literals: the objects
  are allocated first, then the array of their references.\<close>

fun lit_val :: "lit \<Rightarrow> jsval" where
  "lit_val (LStr s) = JStr s"
| "lit_val (LNum n) = JNum (of_int n)"
| "lit_val (LBool b) = JBool b"

definition alloc_options :: "store \<Rightarrow> obj_lit list \<Rightarrow> jsval \<times> store" where
  "alloc_options h ls =
     (JRef (length h + length ls),
      h @ map (\<lambda>ob. ObjCell (map (\<lambda>kv. (fst kv, lit_val (snd kv))) ob)) ls
        @ [ArrCell (map (\<lambda>i. JRef (length h + i)) [0..<length ls])])"

section \<open>Properties of the type aliases\<close>

subsection \<open>Keys and the excluded option\<close>

lemma keyof_set: "S \<noteq> [] \<Longrightarrow> set (keyof S) = (\<Inter>s\<in>set S. set (keys s))"
  by (induction S rule: keyof.induct) auto

lemma keyof_same_keys:
  assumes "S \<noteq> []" and "\<forall>s\<in>set S. \<forall>t\<in>set S. set (keys s) = set (keys t)"
  shows "set (keyof S) = set (all_member_keys S)"
proof -
  obtain s0 where s0: "s0 \<in> set S" using assms(1) by (cases S) auto
  have eq: "\<forall>s\<in>set S. set (keys s) = set (keys s0)" using assms(2) s0 by blast
  have "(\<Inter>s\<in>set S. set (keys s)) = set (keys s0)" using s0 eq by blast
  moreover have "(\<Union>s\<in>set S. set (keys s)) = set (keys s0)" using s0 eq by blast
  ultimately show ?thesis by (simp add: keyof_set assms(1) all_member_keys_def)
qed

lemma keys_normalized:
  "set (map fst ob) \<subseteq> set ks \<Longrightarrow> set (keys (normalized ks ob)) = set ks"
  by (auto simp: keys_def normalized_def comp_def)

lemma distinct_shapes_subset: "set (distinct_shapes S) \<subseteq> set S"
proof (induction S rule: distinct_shapes.induct)
  case 1 show ?case by simp
next
  case (2 s ss) then show ?case by auto
qed

lemma distinct_shapes_nonempty: "S \<noteq> [] \<Longrightarrow> distinct_shapes S \<noteq> []"
  by (cases S) simp_all

lemma keyof_typeof_array:
  assumes "ls \<noteq> []"
  shows "set (KeyofOptions (typeof_array ls)) = (\<Union>ob\<in>set ls. set (map fst ob))"
proof -
  let ?ks = "remdups (concat (map (map fst) ls))"
  let ?S = "distinct_shapes (map (normalized ?ks) ls)"
  have ne: "?S \<noteq> []" using assms by (simp add: distinct_shapes_nonempty)
  have k: "set (keys s) = set ?ks" if "s \<in> set ?S" for s
  proof -
    from that distinct_shapes_subset have "s \<in> set (map (normalized ?ks) ls)" by blast
    then obtain ob where ob: "ob \<in> set ls" and s: "s = normalized ?ks ob" by auto
    from ob have "set (map fst ob) \<subseteq> set ?ks" by auto
    then show ?thesis unfolding s by (rule keys_normalized)
  qed
  have "set (keyof ?S) = (\<Inter>s\<in>set ?S. set (keys s))" using ne by (rule keyof_set)
  also have "\<dots> = set ?ks" using ne k by (cases ?S) auto
  finally show ?thesis by (simp add: typeof_array_def)
qed




lemma keys_Exclude: "keys (ExcludeOptionTypeInUnion Keys E) = filter (\<lambda>k. k \<notin> set (keys E)) (remdups Keys) @ keys E"
  by (simp add: ExcludeOptionTypeInUnion_def Merge_def intersection_def optional_never_def
      Exclude_def keys_def comp_def remdups_filter)

lemma lookup_append: "lookup (a @ b) k = (case lookup a k of None \<Rightarrow> lookup b k | Some p \<Rightarrow> Some p)"
  by (induction a) (auto simp: lookup_def)

lemma lookup_optional_never:
  "lookup (optional_never ks) k =
     (if k \<in> set ks then Some \<lparr>pkey = k, optional = True, readonly = False, pty = TNever\<rparr> else None)"
proof -
  have "find (\<lambda>p. pkey p = k) (map (\<lambda>k. \<lparr>pkey = k, optional = True, readonly = False, pty = TNever\<rparr>) xs)
      = (if k \<in> set xs then Some \<lparr>pkey = k, optional = True, readonly = False, pty = TNever\<rparr> else None)" for xs
    by (induction xs) auto
  from this [of "remdups ks"] show ?thesis by (simp add: lookup_def optional_never_def)
qed

lemma lookup_Exclude:
  "lookup (ExcludeOptionTypeInUnion Keys E) k =
     (if k \<in> set Keys \<and> k \<notin> set (keys E)
      then Some \<lparr>pkey = k, optional = True, readonly = False, pty = TNever\<rparr>
      else lookup E k)"
  by (simp add: ExcludeOptionTypeInUnion_def Merge_def intersection_def lookup_append
      lookup_optional_never Exclude_def)

lemma readable_optional_never:
  "readable \<lparr>pkey = k, optional = True, readonly = False, pty = TNever\<rparr> = TUndefined"
  by (simp add: readable_def vunion_def reduce_def)

text \<open>The two operands of the intersection in \<^verbatim>\<open>ExcludeOptionTypeInUnion\<close>
  have no key in common, and the result lists each key once.\<close>

lemma ExcludeOptionTypeInUnion_disjoint:
  "set (keys (optional_never (Exclude Keys (keyof [E])))) \<inter> set (keys E) = {}"
  by (auto simp: optional_never_def Exclude_def keys_def)

lemma ExcludeOptionTypeInUnion_distinct:
  "distinct (keys E) \<Longrightarrow> distinct (keys (ExcludeOptionTypeInUnion Keys E))"
  by (auto simp: keys_Exclude)

text \<open>
  C4, as stated, fails: \<^verbatim>\<open>keyof\<close> of a union keeps only the keys common to
  all members, so for \<^verbatim>\<open>({ value: string } | { isDivider: boolean })[]\<close> the
  helper gives \<^verbatim>\<open>never\<close>, and a readonly tuple such as
  \<^verbatim>\<open>typeof constOptions\<close> does not match \<^verbatim>\<open>(infer T)[]\<close> at all;
  in both cases the members have the keys \<^verbatim>\<open>value\<close> and \<^verbatim>\<open>isDivider\<close>.
\<close>

theorem KeyofOptions_misses_keys:
  "KeyofOptions (ArrayT [[\<lparr>pkey = ''value'', optional = False, readonly = False, pty = TString\<rparr>],
                         IsDividerOption]) = []
   \<and> all_member_keys [[\<lparr>pkey = ''value'', optional = False, readonly = False, pty = TString\<rparr>],
                       IsDividerOption] = [''value'', ''isDivider'']
   \<and> KeyofOptions (typeof_const constOptions) = []
   \<and> all_member_keys (elems (typeof_const constOptions)) = [''value'', ''isDivider'']"
  by code_simp

text \<open>
  C4, amended.  For a mutable array whose element type is a non-empty union of
  object shapes, \<^verbatim>\<open>KeyofOptions\<close> is the set of keys common to all
  members.  It is the set of all keys of all members when the members have the
  same keys, as in the type of a plain array literal, where it is the set of all
  keys written in the literal.  For a readonly array or tuple it is
  \<^verbatim>\<open>never\<close>.
\<close>

theorem KeyofOptions_common_keys:
  "(S \<noteq> [] \<longrightarrow> set (KeyofOptions (ArrayT S)) = (\<Inter>s\<in>set S. set (keys s)))
   \<and> (S \<noteq> [] \<and> (\<forall>s\<in>set S. \<forall>t\<in>set S. set (keys s) = set (keys t))
        \<longrightarrow> set (KeyofOptions (ArrayT S)) = set (all_member_keys S))
   \<and> (ls \<noteq> [] \<longrightarrow> set (KeyofOptions (typeof_array ls)) = (\<Union>ob\<in>set ls. set (map fst ob)))
   \<and> KeyofOptions (ReadonlyArrayT S) = []
   \<and> KeyofOptions (ReadonlyTupleT S) = []"
proof (intro conjI impI)
  assume "S \<noteq> []"
  then show "set (KeyofOptions (ArrayT S)) = (\<Inter>s\<in>set S. set (keys s))"
    by (simp add: keyof_set)
next
  assume a: "S \<noteq> [] \<and> (\<forall>s\<in>set S. \<forall>t\<in>set S. set (keys s) = set (keys t))"
  from a have n: "S \<noteq> []" by (rule conjunct1)
  from a have e: "\<forall>s\<in>set S. \<forall>t\<in>set S. set (keys s) = set (keys t)" by (rule conjunct2)
  from keyof_same_keys [OF n e]
  show "set (KeyofOptions (ArrayT S)) = set (all_member_keys S)"
    by (simp only: KeyofOptions.simps)
next
  assume "ls \<noteq> []"
  then show "set (KeyofOptions (typeof_array ls)) = (\<Union>ob\<in>set ls. set (map fst ob))"
    by (rule keyof_typeof_array)
next
  show "KeyofOptions (ReadonlyArrayT S) = []" by simp
next
  show "KeyofOptions (ReadonlyTupleT S) = []" by simp
qed

theorem KeyofOptions_common_keys_witness:
  "stringOptions \<noteq> []
   \<and> set (KeyofOptions (typeof_array stringOptions)) = {''value'', ''isDivider''}
   \<and> set (KeyofOptions (ArrayT [IsDividerOption])) = {''isDivider''}
   \<and> set (all_member_keys [IsDividerOption]) = {''isDivider''}"
proof -
  note T = KeyofOptions_common_keys [of "[IsDividerOption]" stringOptions]
  have n: "stringOptions \<noteq> []" by (simp add: stringOptions_def)
  have s: "[IsDividerOption] \<noteq> [] \<and>
           (\<forall>s\<in>set [IsDividerOption]. \<forall>t\<in>set [IsDividerOption]. set (keys s) = set (keys t))"
    by simp
  from T [THEN conjunct2, THEN conjunct2, THEN conjunct1, THEN mp, OF n]
  have 1: "set (KeyofOptions (typeof_array stringOptions)) = (\<Union>ob\<in>set stringOptions. set (map fst ob))" .
  from T [THEN conjunct2, THEN conjunct1, THEN mp, OF s]
  have 2: "set (KeyofOptions (ArrayT [IsDividerOption])) = set (all_member_keys [IsDividerOption])" .
  have 3: "(\<Union>ob\<in>set stringOptions. set (map fst ob)) = {''value'', ''isDivider''}"
    by (auto simp: stringOptions_def)
  have 4: "set (all_member_keys [IsDividerOption]) = {''isDivider''}"
    by (simp add: all_member_keys_def keys_def IsDividerOption_def)
  show ?thesis using n 1 2 3 4 by simp
qed

text \<open>
  C5.  \<^verbatim>\<open>ExcludeOptionTypeInUnion<Keys, ExcludeOptionType>\<close> has the keys of
  \<^verbatim>\<open>Keys\<close> and of \<^verbatim>\<open>ExcludeOptionType\<close>; a key of
  \<^verbatim>\<open>ExcludeOptionType\<close> keeps its property; every other key of \<^verbatim>\<open>Keys\<close>
  is an optional property of declared type \<^verbatim>\<open>never\<close>, from which only
  \<^verbatim>\<open>undefined\<close> can be read.
\<close>

theorem ExcludeOptionTypeInUnion_shape:
  "set (keys (ExcludeOptionTypeInUnion Keys E)) = set Keys \<union> set (keys E)
   \<and> (\<forall>k \<in> set (keys E). lookup (ExcludeOptionTypeInUnion Keys E) k = lookup E k)
   \<and> (\<forall>k \<in> set Keys - set (keys E).
         lookup (ExcludeOptionTypeInUnion Keys E) k
           = Some \<lparr>pkey = k, optional = True, readonly = False, pty = TNever\<rparr>
         \<and> readable \<lparr>pkey = k, optional = True, readonly = False, pty = TNever\<rparr> = TUndefined)"
  by (auto simp: keys_Exclude lookup_Exclude readable_optional_never)

theorem ExcludeOptionTypeInUnion_shape_witness:
  "set (keys (ExcludeOptionTypeInUnion [''value'', ''isDivider'', ''label''] IsDividerOption))
     = {''value'', ''isDivider'', ''label''}
   \<and> lookup (ExcludeOptionTypeInUnion [''value'', ''isDivider'', ''label''] IsDividerOption) ''isDivider''
     = Some \<lparr>pkey = ''isDivider'', optional = False, readonly = False, pty = TBoolean\<rparr>
   \<and> lookup (ExcludeOptionTypeInUnion [''value'', ''isDivider'', ''label''] IsDividerOption) ''value''
     = Some \<lparr>pkey = ''value'', optional = True, readonly = False, pty = TNever\<rparr>
   \<and> lookup (ExcludeOptionTypeInUnion [''value'', ''isDivider'', ''label''] IsDividerOption) ''label''
     = Some \<lparr>pkey = ''label'', optional = True, readonly = False, pty = TNever\<rparr>"
proof -
  have k: "keys IsDividerOption = [''isDivider'']"
    by (simp add: keys_def IsDividerOption_def)
  have l: "lookup IsDividerOption ''isDivider''
           = Some \<lparr>pkey = ''isDivider'', optional = False, readonly = False, pty = TBoolean\<rparr>"
    by (simp add: lookup_def IsDividerOption_def)
  from ExcludeOptionTypeInUnion_shape [of "[''value'', ''isDivider'', ''label'']" IsDividerOption]
  show ?thesis by (auto simp: k l)
qed

subsection \<open>The value types of the examples\<close>

text \<open>The type that the comment above \<^verbatim>\<open>ExcludeOptionTypeInUnion\<close> gives
  for its example array, and the excluded option inside it.\<close>

lemma typeof_documented_example:
  "typeof_array [[(''isDivider'', LBool True)], [(''value'', LStr ''a''), (''label'', LStr ''a'')]]
   = ArrayT
      [[\<lparr>pkey = ''isDivider'', optional = False, readonly = False, pty = TBoolean\<rparr>,
        \<lparr>pkey = ''value'', optional = True, readonly = False, pty = TUndefined\<rparr>,
        \<lparr>pkey = ''label'', optional = True, readonly = False, pty = TUndefined\<rparr>],
       [\<lparr>pkey = ''value'', optional = False, readonly = False, pty = TString\<rparr>,
        \<lparr>pkey = ''label'', optional = False, readonly = False, pty = TString\<rparr>,
        \<lparr>pkey = ''isDivider'', optional = True, readonly = False, pty = TUndefined\<rparr>]]"
  by code_simp

lemma excluded_documented_example:
  "identical
     [\<lparr>pkey = ''isDivider'', optional = False, readonly = False, pty = TBoolean\<rparr>,
      \<lparr>pkey = ''value'', optional = True, readonly = False, pty = TUndefined\<rparr>,
      \<lparr>pkey = ''label'', optional = True, readonly = False, pty = TUndefined\<rparr>]
     (ExcludeOptionTypeInUnion
        (KeyofOptions (typeof_array [[(''isDivider'', LBool True)],
                                     [(''value'', LStr ''a''), (''label'', LStr ''a'')]]))
        IsDividerOption)"
  by code_simp

text \<open>The types written beside the calls \<^verbatim>\<open>testFunc(stringOptions, ...)\<close>,
  \<^verbatim>\<open>testFunc(numberOptions, ...)\<close> and \<^verbatim>\<open>testFunc(manyFieldOptions, ...)\<close>:
  \<^verbatim>\<open>string\<close>, \<^verbatim>\<open>number\<close>, \<^verbatim>\<open>string\<close>.\<close>

lemma stringOptions_value_type:
  "ValueOfOptions (typeof_array stringOptions) IsDividerOption = TString"
  by code_simp

lemma numberOptions_value_type:
  "ValueOfOptions (typeof_array numberOptions) IsDividerOption = TNumber"
  by code_simp

lemma manyFieldOptions_value_type:
  "ValueOfOptions (typeof_array manyFieldOptions) IsDividerOption = TString"
  by code_simp

text \<open>
  C2.  The value type inferred for \<^verbatim>\<open>constOptions\<close>,
  \<^verbatim>\<open>ValueOfOptions<typeof constOptions, IsDividerOption>\<close>, is
  \<^verbatim>\<open>'a' | 'b'\<close>.
\<close>

theorem constOptions_value_type:
  "ValueOfOptions (typeof_const constOptions) IsDividerOption = UnionT [AStrLit ''a'', AStrLit ''b'']"
  by code_simp

text \<open>
  C3.  The value type inferred for \<^verbatim>\<open>stringOptionalValueOptions\<close>,
  \<^verbatim>\<open>ValueOfOptions<typeof stringOptionalValueOptions, IsDividerOption>\<close>, is
  \<^verbatim>\<open>string | undefined\<close>.
\<close>

theorem stringOptionalValueOptions_value_type:
  "ValueOfOptions (typeof_array stringOptionalValueOptions) IsDividerOption
   = UnionT [AString, AUndefined]"
  by code_simp

text \<open>
  C10.  The value type inferred for \<^verbatim>\<open>constOptionalValueOptions\<close> is
  \<^verbatim>\<open>'a' | 'b' | undefined\<close>, and it comes from the fallback branch: whatever
  type stands for \<^verbatim>\<open>Value\<close>, the tuple is not assignable to the first
  pattern (its member \<^verbatim>\<open>{ label: 'a' }\<close> has neither \<^verbatim>\<open>value\<close> nor
  \<^verbatim>\<open>isDivider\<close>), while it is assignable to the second pattern with
  \<^verbatim>\<open>Value = 'a' | 'b'\<close>.
\<close>

theorem constOptionalValueOptions_value_type:
  "ValueOfOptions (typeof_const constOptionalValueOptions) IsDividerOption
     = UnionT [AStrLit ''a'', AStrLit ''b'', AUndefined]
   \<and> \<not> assignable (typeof_const constOptionalValueOptions)
          (Readonly (HaveValueOptionInUnion (typeof_const constOptionalValueOptions)
                       IsDividerOption (Fixed V)))
   \<and> inferred (infer_types (typeof_const constOptionalValueOptions)
                 (Readonly (ArrayP [MaybeHaveValueOptionInUnion Infer])))
     = UnionT [AStrLit ''a'', AStrLit ''b'']
   \<and> assignable (typeof_const constOptionalValueOptions)
        (Readonly (ArrayP [MaybeHaveValueOptionInUnion (Fixed (UnionT [AStrLit ''a'', AStrLit ''b'']))]))"
proof -
  have v: "ValueOfOptions (typeof_const constOptionalValueOptions) IsDividerOption
           = UnionT [AStrLit ''a'', AStrLit ''b'', AUndefined]"
    by code_simp
  have n: "\<not> assignable (typeof_const constOptionalValueOptions)
             (Readonly (HaveValueOptionInUnion (typeof_const constOptionalValueOptions)
                          IsDividerOption (Fixed V)))"
    by (simp add: typeof_const_def constOptionalValueOptions_def HaveValueOptionInUnion_def
        HaveValueOption_def ExcludeOptionTypeInUnion_def Merge_def intersection_def
        optional_never_def Exclude_def IsDividerOption_def to_pat_def props_related_def
        lookup_def keys_def weak_def common_property_def fixed_prop_def member_related_def
        discriminated_related_def discriminant_def prop_types_def)
  have i: "inferred (infer_types (typeof_const constOptionalValueOptions)
                 (Readonly (ArrayP [MaybeHaveValueOptionInUnion Infer])))
           = UnionT [AStrLit ''a'', AStrLit ''b'']"
    by code_simp
  have a: "assignable (typeof_const constOptionalValueOptions)
        (Readonly (ArrayP [MaybeHaveValueOptionInUnion (Fixed (UnionT [AStrLit ''a'', AStrLit ''b'']))]))"
    by code_simp
  from v n i a show ?thesis by blast
qed

subsection \<open>Inference against the two patterns\<close>

text \<open>Against the first pattern, the candidates are the types of the
  \<^verbatim>\<open>value\<close> properties of the members that are not identical to the
  excluded variant (of all members, when all are identical to it).\<close>

lemma fixed_shape_to_pat: "fixed_shape (to_pat s) = Some s"
  by (induction s) (simp_all add: to_pat_def fixed_prop_def)

lemma infer_shape_to_pat: "infer_shape s (to_pat t) = []"
  by (induction t) (simp_all add: infer_shape_def to_pat_def)

lemma infer_shape_HaveValueOption:
  "infer_shape s (HaveValueOption Infer)
   = (case lookup s ''value'' of None \<Rightarrow> [] | Some p \<Rightarrow> [(0, readable p)])"
  by (simp add: infer_shape_def HaveValueOption_def split: option.splits)

lemma infer_members_HaveValue:
  "infer_members S [Obj (HaveValueOption Infer)] = map (\<lambda>v. (0, v)) (value_types S)"
  by (induction S) (simp_all add: infer_members_def value_types_def infer_shape_HaveValueOption
      split: option.splits)

lemma infer_members_HaveValue_Excl:
  "infer_members S [Obj (HaveValueOption Infer), Obj (to_pat X)] = map (\<lambda>v. (0, v)) (value_types S)"
proof -
  have "concat (map (\<lambda>s. infer_shape s (to_pat X)) S) = []" for S
    by (induction S) (simp_all add: infer_shape_to_pat)
  then show ?thesis
    using infer_members_HaveValue [of S] by (simp add: infer_members_def)
qed

lemma inferred_same_priority:
  "inferred (map (\<lambda>v. (p, v)) ts) = (if ts = [] then Unknown else vunion ts)"
proof (cases "p = 0")
  case True
  then show ?thesis by (simp add: inferred_def comp_def)
next
  case False
  then have "filter (\<lambda>c. fst c = 0) (map (\<lambda>v. (p, v)) ts) = []"
    by (induction ts) simp_all
  then show ?thesis by (simp add: inferred_def comp_def)
qed

lemma captured_value:
  "inferred (infer_types Options (Readonly (HaveValueOptionInUnion Options E Infer)))
   = captured_Value Options E"
proof -
  let ?X = "ExcludeOptionTypeInUnion (KeyofOptions Options) E"
  let ?S = "elems Options"
  let ?T = "[Obj (HaveValueOption Infer), Obj (to_pat ?X)]"
  let ?rest = "filter (\<lambda>s. \<not> identical s ?X) ?S"
  have m1: "matches s (Obj (HaveValueOption Infer)) = False" for s
    by (simp add: HaveValueOption_def fixed_prop_def)
  have m2: "matches s (Obj (to_pat ?X)) = identical s ?X" for s
    by (simp add: fixed_shape_to_pat)
  have S': "filter (\<lambda>s. \<not> list_ex (matches s) ?T) ?S = ?rest"
    by (simp add: m1 m2 del: matches.simps)
  have T': "filter (\<lambda>t. \<not> list_ex (\<lambda>s. matches s t) ?S) ?T
            = (if list_ex (\<lambda>s. identical s ?X) ?S then [Obj (HaveValueOption Infer)] else ?T)"
    by (simp add: m1 m2 list_ex_iff del: matches.simps)
  have c: "infer_elems ?S ?T
           = map (\<lambda>v. (if ?rest = [] then 1 else 0, v)) (value_types (if ?rest = [] then ?S else ?rest))"
    unfolding infer_elems_def Let_def S' T'
    by (simp add: infer_members_HaveValue infer_members_HaveValue_Excl comp_def)
  have "infer_types Options (Readonly (HaveValueOptionInUnion Options E Infer)) = infer_elems ?S ?T"
    by (simp add: infer_types_def HaveValueOptionInUnion_def)
  then show ?thesis
    unfolding c captured_Value_def Let_def by (simp only: inferred_same_priority)
qed

text \<open>Against the second pattern, every member is assignable once
  \<^verbatim>\<open>Value\<close> is inferred: the last branch of \<^verbatim>\<open>ValueOfOptions\<close> is not
  taken by an options type of the fragment.\<close>

lemma atom_sub_refl: "atom_sub a a"
  by (cases a) simp_all

lemma atom_sub_trans: "atom_sub a b \<Longrightarrow> atom_sub b c \<Longrightarrow> atom_sub a c"
  by (cases a; cases b; cases c) simp_all

lemma atom_sub_top: "atom_sub a b \<Longrightarrow> b \<noteq> a \<Longrightarrow> atom_sub b c \<Longrightarrow> c = b"
  by (cases a; cases b; cases c) simp_all

lemma reduce_covers:
  assumes "a \<in> set xs"
  shows "\<exists>b\<in>set (reduce xs). atom_sub a b"
proof (cases "\<exists>b\<in>set xs. b \<noteq> a \<and> atom_sub a b")
  case False
  with assms have "a \<in> set (reduce xs)"
    by (auto simp: reduce_def Let_def list_ex_iff)
  then show ?thesis using atom_sub_refl by blast
next
  case True
  then obtain b where b: "b \<in> set xs" "b \<noteq> a" "atom_sub a b" by blast
  have "\<not> (\<exists>c\<in>set xs. c \<noteq> b \<and> atom_sub b c)"
    using atom_sub_top [OF b(3) b(2)] by blast
  with b(1) have "b \<in> set (reduce xs)"
    by (auto simp: reduce_def Let_def list_ex_iff)
  with b(3) show ?thesis by blast
qed

lemma vunion_covers:
  assumes "UnionT zs \<in> set ts" and "a \<in> set zs" and "vunion ts = UnionT vs"
  shows "\<exists>b\<in>set vs. atom_sub a b"
proof -
  from assms(3) have vs: "vs = reduce (concat (map atoms ts))"
    by (simp add: vunion_def split: if_splits)
  from assms(1,2) have "a \<in> set (concat (map atoms ts))" by force
  then show ?thesis unfolding vs by (rule reduce_covers)
qed

lemma inferred_covers:
  assumes "(0, UnionT zs) \<in> set cs" and "a \<in> set zs" and "inferred cs = UnionT vs"
  shows "\<exists>b\<in>set vs. atom_sub a b"
proof -
  let ?best = "filter (\<lambda>c. fst c = 0) cs"
  from assms(1) have m: "(0, UnionT zs) \<in> set ?best" by simp
  then have ne: "?best \<noteq> []" by force
  from assms(1) have "cs \<noteq> []" by force
  with ne assms(3) have v: "vunion (map snd ?best) = UnionT vs"
    by (simp add: inferred_def Let_def)
  from m have "UnionT zs \<in> set (map snd ?best)" by force
  from vunion_covers [OF this assms(2) v] show ?thesis .
qed

lemma inferred_unknown:
  assumes "(0, Unknown) \<in> set cs"
  shows "inferred cs = Unknown"
proof -
  let ?best = "filter (\<lambda>c. fst c = 0) cs"
  from assms have m: "(0, Unknown) \<in> set ?best" by simp
  then have ne: "?best \<noteq> []" by force
  from assms have c: "cs \<noteq> []" by force
  from m have "Unknown \<in> set (map snd ?best)" by force
  then have "vunion (map snd ?best) = Unknown" by (simp add: vunion_def)
  with ne c show ?thesis by (simp add: inferred_def Let_def)
qed

lemma optional_target_covers:
  assumes "set (infer_vty r True) \<subseteq> set cs"
  shows "vty_sub r (vunion [inferred cs, TUndefined])"
proof (cases r)
  case Unknown
  with assms have "(0, Unknown) \<in> set cs" by simp
  then have "inferred cs = Unknown" by (rule inferred_unknown)
  then show ?thesis by (simp add: vunion_def)
next
  case (UnionT as)
  show ?thesis
  proof (cases "inferred cs")
    case Unknown
    then show ?thesis by (simp add: vunion_def)
  next
    case (UnionT vs)
    have "\<exists>b\<in>set (reduce (vs @ [AUndefined])). atom_sub a b" if a: "a \<in> set as" for a
    proof (cases "a = AUndefined")
      case True
      have "AUndefined \<in> set (vs @ [AUndefined])" by simp
      from reduce_covers [OF this] True show ?thesis by simp
    next
      case False
      have "\<exists>zs. (0, UnionT zs) \<in> set cs \<and> a \<in> set zs"
      proof (cases "AUndefined \<in> set as")
        case True
        from a False have "a \<in> set (filter (\<lambda>a. a \<noteq> AUndefined) as)" by simp
        then have ne: "filter (\<lambda>a. a \<noteq> AUndefined) as \<noteq> []" by force
        with assms \<open>r = UnionT as\<close> True
        have "(0, UnionT (filter (\<lambda>a. a \<noteq> AUndefined) as)) \<in> set cs"
          by (simp add: Let_def)
        with a False show ?thesis by force
      next
        case False
        with assms \<open>r = UnionT as\<close> have "(0, UnionT as) \<in> set cs" by simp
        with a show ?thesis by blast
      qed
      then obtain zs where zs: "(0, UnionT zs) \<in> set cs" "a \<in> set zs" by blast
      from inferred_covers [OF zs UnionT] obtain b where b: "b \<in> set vs" "atom_sub a b" by blast
      from b(1) have "b \<in> set (vs @ [AUndefined])" by simp
      from reduce_covers [OF this] obtain c where "c \<in> set (reduce (vs @ [AUndefined]))" "atom_sub b c"
        by blast
      with b(2) atom_sub_trans show ?thesis by blast
    qed
    then show ?thesis
      using \<open>r = UnionT as\<close> UnionT by (simp add: vunion_def list_all_iff list_ex_iff)
  qed
qed

lemma infer_types_Maybe:
  "infer_types A (Readonly (ArrayP [MaybeHaveValueOptionInUnion Infer]))
   = concat (map (\<lambda>s. case lookup s ''value'' of
                          None \<Rightarrow> []
                        | Some p \<Rightarrow> infer_vty (readable p) True) (elems A))"
proof -
  have i: "infer_shape s (target_shape (MaybeHaveValueOptionInUnion Infer))
           = (case lookup s ''value'' of None \<Rightarrow> [] | Some p \<Rightarrow> infer_vty (readable p) True)" for s
    by (simp add: infer_shape_def MaybeHaveValueOptionInUnion_def split: option.splits)
  have m: "infer_members S [MaybeHaveValueOptionInUnion Infer]
           = concat (map (\<lambda>s. case lookup s ''value'' of
                          None \<Rightarrow> []
                        | Some p \<Rightarrow> infer_vty (readable p) True) S)" for S
    by (simp add: infer_members_def i)
  have n: "matches s (MaybeHaveValueOptionInUnion Infer) = False" for s
    by (simp add: MaybeHaveValueOptionInUnion_def)
  show ?thesis
    by (simp add: infer_types_def infer_elems_def Let_def n m list_ex_iff del: matches.simps)
qed

lemma fallback_matches:
  "assignable A
     (Readonly (ArrayP [MaybeHaveValueOptionInUnion
        (Fixed (inferred (infer_types A (Readonly (ArrayP [MaybeHaveValueOptionInUnion Infer])))))]))"
proof -
  let ?cs = "infer_types A (Readonly (ArrayP [MaybeHaveValueOptionInUnion Infer]))"
  have "shape_related s (MaybeHaveValueOptionInUnion (Fixed (inferred ?cs)))"
    if s: "s \<in> set (elems A)" for s
  proof (cases "lookup s ''value''")
    case None
    then show ?thesis
      by (simp add: MaybeHaveValueOptionInUnion_def props_related_def)
  next
    case (Some p)
    with s have "set (infer_vty (readable p) True) \<subseteq> set ?cs"
      unfolding infer_types_Maybe by force
    then have "vty_sub (readable p) (vunion [inferred ?cs, TUndefined])"
      by (rule optional_target_covers)
    with Some show ?thesis
      by (simp add: MaybeHaveValueOptionInUnion_def props_related_def fixed_prop_def readable_def)
  qed
  then show ?thesis by (simp add: list_all_iff member_related_def)
qed

text \<open>The options type
  \<^verbatim>\<open>({ value?: 'a'; isDivider: boolean } | { value: 0; isDivider: boolean })[]\<close>
  with the excluded option \<^verbatim>\<open>{ value: 0; isDivider: boolean }\<close>: its first member
  is assignable to no member of the first pattern, but to the pattern as a
  union discriminated by \<^verbatim>\<open>value\<close>, so the first branch gives
  \<^verbatim>\<open>'a' | undefined\<close>.\<close>

lemma optional_a_options_value_type:
  "ValueOfOptions optional_a_options zero_divider = UnionT [AStrLit ''a'', AUndefined]
   \<and> \<not> list_all (\<lambda>s. list_ex (shape_related s)
                         (pat_elems (HaveValueOptionInUnion optional_a_options zero_divider
                            (Fixed (UnionT [AStrLit ''a'', AUndefined])))))
          (elems optional_a_options)
   \<and> assignable optional_a_options
        (Readonly (HaveValueOptionInUnion optional_a_options zero_divider
                     (Fixed (UnionT [AStrLit ''a'', AUndefined]))))"
  by code_simp

text \<open>With \<^verbatim>\<open>IsDividerOption\<close> as the excluded option, the options type
  \<^verbatim>\<open>{ value?: 'a'; isDivider: boolean }[]\<close> takes the first branch in the same
  way: \<^verbatim>\<open>value\<close> discriminates \<^verbatim>\<open>{ value: 'a' | undefined }\<close> from the
  excluded variant, whose \<^verbatim>\<open>value\<close> reads \<^verbatim>\<open>undefined\<close>.\<close>

lemma optional_value_first_branch:
  "assignable
     (ArrayT [[\<lparr>pkey = ''value'', optional = True, readonly = False, pty = UnionT [AStrLit ''a'']\<rparr>,
               \<lparr>pkey = ''isDivider'', optional = False, readonly = False, pty = TBoolean\<rparr>]])
     (Readonly (HaveValueOptionInUnion
        (ArrayT [[\<lparr>pkey = ''value'', optional = True, readonly = False, pty = UnionT [AStrLit ''a'']\<rparr>,
                  \<lparr>pkey = ''isDivider'', optional = False, readonly = False, pty = TBoolean\<rparr>]])
        IsDividerOption (Fixed (UnionT [AStrLit ''a'', AUndefined]))))
   \<and> ValueOfOptions
       (ArrayT [[\<lparr>pkey = ''value'', optional = True, readonly = False, pty = UnionT [AStrLit ''a'']\<rparr>,
                 \<lparr>pkey = ''isDivider'', optional = False, readonly = False, pty = TBoolean\<rparr>]])
       IsDividerOption
     = UnionT [AStrLit ''a'', AUndefined]"
  by code_simp

text \<open>
  C1.  \<^verbatim>\<open>ValueOfOptions\<close> first infers \<^verbatim>\<open>Value\<close> against the pattern
  "array of value-bearing variant or excluded variant" and, when the options
  type is assignable to the pattern with that \<^verbatim>\<open>Value\<close>, yields it;
  otherwise it infers \<^verbatim>\<open>Value\<close> against "array of shapes with an optional
  \<^verbatim>\<open>value\<close>" and, when the options type is assignable to that, yields
  \<^verbatim>\<open>Value | undefined\<close>; otherwise it yields \<^verbatim>\<open>never\<close>.  More
  precisely: the \<^verbatim>\<open>Value\<close> of the first pattern is the union of the types
  of the \<^verbatim>\<open>value\<close> properties of the members other than the excluded variant;
  and when the first pattern fails, the second always matches an array of object
  shapes, so that the result is then \<^verbatim>\<open>Value | undefined\<close>.
\<close>

theorem ValueOfOptions_branches:
  "ValueOfOptions Options ExcludeOptionType =
     (let Value = inferred (infer_types Options
                    (Readonly (HaveValueOptionInUnion Options ExcludeOptionType Infer)))
      in if assignable Options
              (Readonly (HaveValueOptionInUnion Options ExcludeOptionType (Fixed Value)))
         then Value
         else (let Value = inferred (infer_types Options
                             (Readonly (ArrayP [MaybeHaveValueOptionInUnion Infer])))
               in if assignable Options
                       (Readonly (ArrayP [MaybeHaveValueOptionInUnion (Fixed Value)]))
                  then vunion [Value, TUndefined]
                  else TNever))
   \<and> (assignable Options
         (Readonly (HaveValueOptionInUnion Options ExcludeOptionType
                      (Fixed (captured_Value Options ExcludeOptionType))))
        \<longrightarrow> ValueOfOptions Options ExcludeOptionType = captured_Value Options ExcludeOptionType)
   \<and> (\<not> assignable Options
           (Readonly (HaveValueOptionInUnion Options ExcludeOptionType
                        (Fixed (captured_Value Options ExcludeOptionType))))
        \<longrightarrow> assignable Options
              (Readonly (ArrayP [MaybeHaveValueOptionInUnion
                 (Fixed (inferred (infer_types Options
                    (Readonly (ArrayP [MaybeHaveValueOptionInUnion Infer])))))]))
            \<and> ValueOfOptions Options ExcludeOptionType
                = vunion [inferred (infer_types Options
                            (Readonly (ArrayP [MaybeHaveValueOptionInUnion Infer]))),
                          TUndefined])"
proof (intro conjI impI)
  show "ValueOfOptions Options ExcludeOptionType =
     (let Value = inferred (infer_types Options
                    (Readonly (HaveValueOptionInUnion Options ExcludeOptionType Infer)))
      in if assignable Options
              (Readonly (HaveValueOptionInUnion Options ExcludeOptionType (Fixed Value)))
         then Value
         else (let Value = inferred (infer_types Options
                             (Readonly (ArrayP [MaybeHaveValueOptionInUnion Infer])))
               in if assignable Options
                       (Readonly (ArrayP [MaybeHaveValueOptionInUnion (Fixed Value)]))
                  then vunion [Value, TUndefined]
                  else TNever))"
    by (simp only: ValueOfOptions_def)
next
  assume "assignable Options
         (Readonly (HaveValueOptionInUnion Options ExcludeOptionType
                      (Fixed (captured_Value Options ExcludeOptionType))))"
  then show "ValueOfOptions Options ExcludeOptionType = captured_Value Options ExcludeOptionType"
    by (simp only: ValueOfOptions_def Let_def captured_value if_True)
next
  show "assignable Options
              (Readonly (ArrayP [MaybeHaveValueOptionInUnion
                 (Fixed (inferred (infer_types Options
                    (Readonly (ArrayP [MaybeHaveValueOptionInUnion Infer])))))]))"
    by (rule fallback_matches)
next
  assume "\<not> assignable Options
           (Readonly (HaveValueOptionInUnion Options ExcludeOptionType
                        (Fixed (captured_Value Options ExcludeOptionType))))"
  then show "ValueOfOptions Options ExcludeOptionType
                = vunion [inferred (infer_types Options
                            (Readonly (ArrayP [MaybeHaveValueOptionInUnion Infer]))),
                          TUndefined]"
    using fallback_matches [of Options]
    by (simp only: ValueOfOptions_def Let_def captured_value if_True if_False)
qed

theorem ValueOfOptions_branches_witness:
  "assignable (typeof_array stringOptions)
     (Readonly (HaveValueOptionInUnion (typeof_array stringOptions) IsDividerOption
                  (Fixed (captured_Value (typeof_array stringOptions) IsDividerOption))))
   \<and> ValueOfOptions (typeof_array stringOptions) IsDividerOption = TString
   \<and> assignable optional_a_options
       (Readonly (HaveValueOptionInUnion optional_a_options zero_divider
                    (Fixed (captured_Value optional_a_options zero_divider))))
   \<and> ValueOfOptions optional_a_options zero_divider = UnionT [AStrLit ''a'', AUndefined]
   \<and> \<not> assignable (typeof_const constOptionalValueOptions)
         (Readonly (HaveValueOptionInUnion (typeof_const constOptionalValueOptions) IsDividerOption
                      (Fixed (captured_Value (typeof_const constOptionalValueOptions)
                                IsDividerOption))))
   \<and> ValueOfOptions (typeof_const constOptionalValueOptions) IsDividerOption
       = UnionT [AStrLit ''a'', AStrLit ''b'', AUndefined]"
proof -
  let ?A = "typeof_array stringOptions"
  let ?B = "typeof_const constOptionalValueOptions"
  let ?C = "optional_a_options"
  have ma: "assignable ?A (Readonly (HaveValueOptionInUnion ?A IsDividerOption
                                       (Fixed (captured_Value ?A IsDividerOption))))"
    by code_simp
  have ca: "captured_Value ?A IsDividerOption = TString" by code_simp
  from ValueOfOptions_branches [of ?A IsDividerOption, THEN conjunct2, THEN conjunct1, THEN mp, OF ma]
  have a: "ValueOfOptions ?A IsDividerOption = TString"
    by (simp only: ca)
  have mc: "assignable ?C (Readonly (HaveValueOptionInUnion ?C zero_divider
                                       (Fixed (captured_Value ?C zero_divider))))"
    by code_simp
  have cc: "captured_Value ?C zero_divider = UnionT [AStrLit ''a'', AUndefined]" by code_simp
  from ValueOfOptions_branches [of ?C zero_divider, THEN conjunct2, THEN conjunct1, THEN mp, OF mc]
  have c: "ValueOfOptions ?C zero_divider = UnionT [AStrLit ''a'', AUndefined]"
    by (simp only: cc)
  have nb: "\<not> assignable ?B (Readonly (HaveValueOptionInUnion ?B IsDividerOption
                                          (Fixed (captured_Value ?B IsDividerOption))))"
    by code_simp
  have vb: "vunion [inferred (infer_types ?B (Readonly (ArrayP [MaybeHaveValueOptionInUnion Infer]))),
                    TUndefined]
            = UnionT [AStrLit ''a'', AStrLit ''b'', AUndefined]"
    by code_simp
  from ValueOfOptions_branches [of ?B IsDividerOption, THEN conjunct2, THEN conjunct2, THEN mp, OF nb]
  have b: "ValueOfOptions ?B IsDividerOption = UnionT [AStrLit ''a'', AStrLit ''b'', AUndefined]"
    by (simp only: vb)
  from ma a mc c nb b show ?thesis by (intro conjI)
qed

section \<open>Properties of the harness\<close>

lemma is_object_isDivider_in:
  "is_object h v \<Longrightarrow> isDivider_in h v = Inr (carries_isDivider h v)"
  by (auto simp: is_object_def isDivider_in_def carries_isDivider_def
      split: option.splits cell.splits)

lemma filter_isDivider_objects:
  "list_all (is_object h) xs \<Longrightarrow> filter_isDivider h xs = Inr (filter (carries_isDivider h) xs)"
  by (induction xs) (simp_all add: is_object_isDivider_in)

lemma deref_alloc: "deref (h @ [c]) (JRef (length h)) = Some c"
  by (simp add: deref_def)

lemma testFunc_typed:
  assumes "typed_options h options"
  shows "testFunc options onClick rnd h =
           onClick (array_get (filter (carries_isDivider h) (entries h options))
                      (randomIndex rnd (length (filter (carries_isDivider h) (entries h options)))))
                   (h @ [ArrCell (filter (carries_isDivider h) (entries h options))])"
proof -
  from assms obtain xs where xs: "deref h options = Some (ArrCell xs)"
    and objs: "list_all (is_object h) xs"
    by (auto simp: typed_options_def split: option.splits cell.splits)
  have e: "entries h options = xs" by (simp add: entries_def xs)
  show ?thesis
    by (simp add: testFunc_def xs e filter_isDivider_objects [OF objs] alloc_def deref_alloc)
qed

lemma typed_entries: "typed_options h options \<Longrightarrow> list_all (is_object h) (entries h options)"
  by (auto simp: typed_options_def entries_def split: option.splits cell.splits)

text \<open>Rounding to a double: \<open>x\<close> moves by at most half the spacing, a double
  below 1 is at most \<open>1 - 2 ^ - 53\<close>, and so the product of a draw in \<open>[0, 1)\<close>
  with a length \<open>n\<close> rounds to a double below \<open>n\<close>.\<close>

lemma pow2_powr: "pow2 k = 2 powr (of_int k)"
proof (cases "0 \<le> k")
  case True
  then have "2 powr (of_int k) = (2::real) powr (real (nat k))" by simp
  also have "\<dots> = 2 ^ nat k" by (simp add: powr_realpow)
  finally show ?thesis using True by (simp add: pow2_def)
next
  case False
  then have "(2::real) powr (of_int k) = 2 powr (- real (nat (- k)))" by simp
  also have "\<dots> = 1 / 2 ^ nat (- k)" by (simp add: powr_minus powr_realpow divide_inverse)
  finally show ?thesis using False by (simp add: pow2_def)
qed

lemma pow2_pos: "0 < pow2 k"
  by (simp add: pow2_powr)

lemma pow2_mono: "a \<le> b \<Longrightarrow> pow2 a \<le> pow2 b"
  by (simp add: pow2_powr)

lemma pow2_diff: "pow2 (a - b) = pow2 a / pow2 b"
  by (simp add: pow2_powr powr_diff)

lemma pow2_add: "pow2 (a + b) = pow2 a * pow2 b"
  by (simp add: pow2_powr powr_add)

lemma pow2_floor_log: "0 < x \<Longrightarrow> pow2 \<lfloor>log 2 x\<rfloor> \<le> x"
proof -
  assume x: "0 < x"
  have "2 powr (of_int \<lfloor>log 2 x\<rfloor>) \<le> 2 powr (log 2 x)"
    by (rule powr_mono) simp_all
  also have "\<dots> = x" using x by simp
  finally show ?thesis by (simp add: pow2_powr)
qed

lemma floor_log2_eq:
  assumes "0 < x" and "pow2 E \<le> x" and "x < pow2 (E + 1)"
  shows "\<lfloor>log 2 x\<rfloor> = E"
proof (rule floor_unique)
  from assms(1,2) show "of_int E \<le> log 2 x"
    by (simp add: pow2_powr le_log_iff)
  from assms(1,3) show "log 2 x < of_int E + 1"
    by (simp add: pow2_powr log_less_iff)
qed

lemma round_half_even_le: "of_int (round_half_even q) \<le> q + 1 / 2"
proof -
  have f: "of_int \<lfloor>q\<rfloor> \<le> q" by simp
  consider "q - of_int \<lfloor>q\<rfloor> < 1 / 2" | "1 / 2 < q - of_int \<lfloor>q\<rfloor>"
    | "q - of_int \<lfloor>q\<rfloor> = 1 / 2" by linarith
  then show ?thesis
  proof cases
    case 1
    then have "round_half_even q = \<lfloor>q\<rfloor>" by (simp add: round_half_even_def)
    with f show ?thesis by linarith
  next
    case 2
    then have "round_half_even q = \<lfloor>q\<rfloor> + 1" by (simp add: round_half_even_def)
    with 2 show ?thesis by simp
  next
    case 3
    then have "round_half_even q = \<lfloor>q\<rfloor> \<or> round_half_even q = \<lfloor>q\<rfloor> + 1"
      by (simp add: round_half_even_def Let_def)
    with 3 show ?thesis by auto
  qed
qed

lemma round_half_even_nonneg: "0 \<le> q \<Longrightarrow> 0 \<le> round_half_even q"
  by (auto simp: round_half_even_def Let_def)

lemma ulp_pos: "0 < ulp x"
  by (simp add: ulp_def pow2_pos)

lemma ulp_bound:
  assumes "0 < x" and "x < y" and "1 \<le> y"
  shows "ulp x < y / 2 ^ 52"
proof -
  let ?E = "\<lfloor>log 2 \<bar>x\<bar>\<rfloor>"
  have e: "pow2 ?E \<le> x" using pow2_floor_log [OF assms(1)] assms(1) by simp
  have "pow2 (max ?E (- 1022)) < y"
  proof (cases "?E \<le> - 1022")
    case True
    have "pow2 (- 1022) \<le> pow2 0" by (rule pow2_mono) simp
    also have "\<dots> = 1" by (simp add: pow2_def)
    finally have "pow2 (- 1022) \<le> 1" .
    moreover have "pow2 (- 1022) \<noteq> 1" by (simp add: pow2_def)
    ultimately have "pow2 (- 1022) < 1" by simp
    with True assms(3) show ?thesis by (simp add: max_def)
  next
    case False
    with e assms(2) show ?thesis by (simp add: max_def)
  qed
  moreover have "pow2 52 = 2 ^ 52" by (simp add: pow2_def)
  ultimately show ?thesis
    by (simp add: ulp_def pow2_diff divide_strict_right_mono)
qed

lemma round_double_nonneg: "0 \<le> x \<Longrightarrow> 0 \<le> round_double x"
proof (cases "x = 0")
  case True then show ?thesis by (simp add: round_double_def)
next
  case False
  assume "0 \<le> x"
  then have "0 \<le> x / ulp x" using ulp_pos [of x] by simp
  then have "0 \<le> round_half_even (x / ulp x)" by (rule round_half_even_nonneg)
  then show ?thesis using False ulp_pos [of x] by (simp add: round_double_def)
qed

lemma round_double_le: "x \<noteq> 0 \<Longrightarrow> round_double x \<le> x + ulp x / 2"
proof -
  assume x: "x \<noteq> 0"
  have u: "0 < ulp x" by (rule ulp_pos)
  have "of_int (round_half_even (x / ulp x)) * ulp x \<le> (x / ulp x + 1 / 2) * ulp x"
    using round_half_even_le [of "x / ulp x"] u by (simp only: mult_le_cancel_right_pos)
  also have "\<dots> = x + ulp x / 2" using u by (simp add: field_simps)
  finally show ?thesis using x by (simp add: round_double_def)
qed

lemma randomIndex_zero: "randomIndex rnd 0 = 0"
  by (simp add: randomIndex_def round_double_def)

lemma randomIndex_range:
  assumes "0 \<le> rnd" and "rnd \<le> 1 - 1 / 2 ^ 53" and "0 < n"
  shows "0 \<le> randomIndex rnd n \<and> randomIndex rnd n < int n"
proof -
  let ?x = "rnd * real n"
  have x0: "0 \<le> ?x" using assms by simp
  have n1: "1 \<le> real n" using assms(3) by simp
  have xn: "?x \<le> real n - real n / 2 ^ 53"
  proof -
    have "rnd * real n \<le> (1 - 1 / 2 ^ 53) * real n"
      using assms(2) by (rule mult_right_mono) simp
    then show ?thesis by (simp add: algebra_simps)
  qed
  have lo: "0 \<le> round_double ?x" using x0 by (rule round_double_nonneg)
  have hi: "round_double ?x < real n"
  proof (cases "?x = 0")
    case True
    then show ?thesis using assms(3) by (simp add: round_double_def)
  next
    case False
    with x0 have xp: "0 < ?x" by (simp only: less_le) simp
    have "real n / 2 ^ 53 > 0" using assms(3) by simp
    with xn have xlt: "?x < real n" by simp
    have "ulp ?x < real n / 2 ^ 52" using xp xlt n1 by (rule ulp_bound)
    then have "ulp ?x / 2 < real n / 2 ^ 53" by simp
    with round_double_le [OF False] xn show ?thesis by simp
  qed
  from lo hi show ?thesis by (simp add: randomIndex_def floor_less_iff)
qed

lemma double_below_one:
  assumes "is_double x" and "x < 1"
  shows "x \<le> 1 - 1 / 2 ^ 53"
proof -
  from assms(1) obtain m e :: int where m: "\<bar>m\<bar> < 2 ^ 53" and x: "x = of_int m * pow2 e"
    by (auto simp: is_double_def)
  show ?thesis
  proof (cases "e \<le> - 53")
    case True
    show ?thesis
    proof (cases "m \<le> 0")
      case True
      then have "x \<le> 0" using x pow2_pos [of e] by (simp add: mult_le_0_iff)
      then show ?thesis by simp
    next
      case False
      from m have "m \<le> 2 ^ 53 - 1" by simp
      then have "real_of_int m \<le> real_of_int (2 ^ 53 - 1)" by (simp only: of_int_le_iff)
      then have m': "real_of_int m \<le> 2 ^ 53 - 1" by simp
      have "pow2 e \<le> pow2 (- 53)" using True by (rule pow2_mono)
      also have "\<dots> = 1 / 2 ^ 53" by (simp add: pow2_def)
      finally have p: "pow2 e \<le> 1 / 2 ^ 53" .
      have "x \<le> real_of_int m * (1 / 2 ^ 53)"
        unfolding x using p False by (intro mult_left_mono) simp_all
      also have "\<dots> \<le> (2 ^ 53 - 1) * (1 / 2 ^ 53)"
        using m' by (intro mult_right_mono) simp_all
      also have "\<dots> = 1 - 1 / 2 ^ 53" by (simp add: field_simps)
      finally show ?thesis .
    qed
  next
    case False
    then have k: "0 \<le> e + 52" by simp
    have "x * 2 ^ 52 = of_int m * (pow2 e * pow2 52)" by (simp add: x pow2_def)
    also have "pow2 e * pow2 52 = pow2 (e + 52)" by (simp add: pow2_add)
    also have "\<dots> = 2 ^ nat (e + 52)" using k by (simp add: pow2_def)
    finally have i: "x * 2 ^ 52 = of_int (m * 2 ^ nat (e + 52))" by simp
    from assms(2) have "x * 2 ^ 52 < 2 ^ 52" by simp
    with i have "real_of_int (m * 2 ^ nat (e + 52)) < real_of_int (2 ^ 52)" by simp
    then have "m * 2 ^ nat (e + 52) < 2 ^ 52" by (simp only: of_int_less_iff)
    then have "m * 2 ^ nat (e + 52) \<le> 2 ^ 52 - 1" by simp
    then have "real_of_int (m * 2 ^ nat (e + 52)) \<le> real_of_int (2 ^ 52 - 1)" by (simp only: of_int_le_iff)
    with i have "x * 2 ^ 52 \<le> 2 ^ 52 - 1" by simp
    then have "x \<le> (2 ^ 52 - 1) / 2 ^ 52" by (simp add: pos_le_divide_eq)
    also have "\<dots> = 1 - 1 / 2 ^ 52" by (simp add: field_simps)
    also have "\<dots> \<le> 1 - 1 / 2 ^ 53" by simp
    finally show ?thesis .
  qed
qed

lemma round_double_half: "round_double (1 / 2) = 1 / 2"
proof -
  have "\<lfloor>log 2 \<bar>1 / 2 :: real\<bar>\<rfloor> = - 1"
    by (rule floor_log2_eq) (simp_all add: pow2_def)
  then have u: "ulp (1 / 2) = 1 / 2 ^ 53" by (simp add: ulp_def pow2_def)
  show ?thesis
    by (simp add: round_double_def u round_half_even_def)
qed

lemma randomIndex_half: "randomIndex (1 / 2) (Suc 0) = 0"
  by (simp add: randomIndex_def round_double_half)

lemma is_double_half: "is_double (1 / 2)"
  unfolding is_double_def
  by (rule exI [of _ 1], rule exI [of _ "- 1"]) (simp add: pow2_def)

text \<open>The product is rounded before the floor: for the draw
  \<open>2573485501354569 / 2 ^ 52\<close> and the length 7 the exact product is
  \<open>4 - 2 ^ - 52\<close>, which rounds to 4.\<close>

lemma randomIndex_rounds_up: "randomIndex (2573485501354569 / 2 ^ 52) 7 = 4"
proof -
  let ?x = "2573485501354569 / 2 ^ 52 * real 7"
  have x: "?x = 18014398509481983 / 4503599627370496" by simp
  have "\<lfloor>log 2 \<bar>18014398509481983 / 4503599627370496 :: real\<bar>\<rfloor> = 1"
    by (rule floor_log2_eq) (simp_all add: pow2_def)
  then have u: "ulp (18014398509481983 / 4503599627370496) = 1 / 2 ^ 51"
    by (simp add: ulp_def pow2_def)
  have "round_double (18014398509481983 / 4503599627370496) = 4"
    by (simp add: round_double_def u round_half_even_def)
  then show ?thesis by (simp add: randomIndex_def x)
qed

lemma deref_prefix: "deref h v = Some c \<Longrightarrow> take (length h) h' = h \<Longrightarrow> deref h' v = Some c"
proof (cases v)
  case (JRef a)
  assume d: "deref h v = Some c" and t: "take (length h) h' = h"
  from d JRef have a: "a < length h" and c: "h ! a = c"
    by (auto simp: deref_def split: if_splits)
  from t have "length (take (length h) h') = length h" by simp
  then have "length h \<le> length h'" by simp
  moreover from t a have "h' ! a = h ! a" by (metis nth_take)
  ultimately show ?thesis using a c JRef by (simp add: deref_def)
qed (simp_all add: deref_def)

text \<open>The store of the example \<^verbatim>\<open>constOptions\<close>: three objects and the
  array of their references.\<close>

lemma alloc_constOptions:
  "alloc_options [] constOptions
   = (JRef 3,
      [ObjCell [(''value'', JStr ''a'')], ObjCell [(''value'', JStr ''b'')],
       ObjCell [(''isDivider'', JBool False)], ArrCell [JRef 0, JRef 1, JRef 2]])"
  by code_simp

text \<open>
  C6, as stated, fails on an array without a divider entry: for the empty
  array the filtered array has no entry to pick, and the callback is called
  with \<^verbatim>\<open>undefined\<close>.
\<close>

theorem testFunc_empty_options:
  "filter_isDivider [ArrCell []] (entries [ArrCell []] (JRef 0)) = Inr []
   \<and> testFunc (JRef 0) record_arg (1 / 2) [ArrCell []]
       = Inr [ArrCell [], ArrCell [], ArrCell [JUndefined]]"
  by (simp add: testFunc_def deref_def entries_def alloc_def randomIndex_zero array_get_def
      record_arg_def)

text \<open>
  C6, amended.  For a typed options array with at least one entry carrying
  \<^verbatim>\<open>isDivider\<close>, a draw \<open>rnd\<close> of \<^verbatim>\<open>Math.random()\<close> (a double in
  \<open>[0, 1)\<close>) and any callback: the filtered array holds exactly the entries
  carrying \<^verbatim>\<open>isDivider\<close>, in order; the random index, the floor of the
  double product of the draw and the length, is in range; the callback is
  called once, with the reference to the entry at that index itself, on the
  store extended by the filtered array.
\<close>

theorem testFunc_picks_divider_entry:
  assumes "typed_options h options" and "is_double rnd" and "0 \<le> rnd" and "rnd < 1"
    and "list_ex (carries_isDivider h) (entries h options)"
  shows "filter_isDivider h (entries h options) = Inr (filter (carries_isDivider h) (entries h options))
       \<and> 0 \<le> randomIndex rnd (length (filter (carries_isDivider h) (entries h options)))
       \<and> randomIndex rnd (length (filter (carries_isDivider h) (entries h options)))
            < int (length (filter (carries_isDivider h) (entries h options)))
       \<and> filter (carries_isDivider h) (entries h options)
            ! nat (randomIndex rnd (length (filter (carries_isDivider h) (entries h options))))
          \<in> set (entries h options)
       \<and> carries_isDivider h
            (filter (carries_isDivider h) (entries h options)
              ! nat (randomIndex rnd (length (filter (carries_isDivider h) (entries h options)))))
       \<and> testFunc options onClick rnd h
          = onClick (filter (carries_isDivider h) (entries h options)
                       ! nat (randomIndex rnd (length (filter (carries_isDivider h) (entries h options)))))
                    (h @ [ArrCell (filter (carries_isDivider h) (entries h options))])"
proof -
  let ?ys = "filter (carries_isDivider h) (entries h options)"
  let ?i = "randomIndex rnd (length ?ys)"
  from assms(5) have ne: "0 < length ?ys"
    by (auto simp: list_ex_iff filter_empty_conv)
  have f: "filter_isDivider h (entries h options) = Inr ?ys"
    using typed_entries [OF assms(1)] by (rule filter_isDivider_objects)
  have b: "rnd \<le> 1 - 1 / 2 ^ 53"
    using assms(2,4) by (rule double_below_one)
  have r: "0 \<le> ?i \<and> ?i < int (length ?ys)"
    using assms(3) b ne by (rule randomIndex_range)
  then have lt: "nat ?i < length ?ys" by linarith
  then have m: "?ys ! nat ?i \<in> set ?ys" by (rule nth_mem)
  have g: "array_get ?ys ?i = ?ys ! nat ?i" using r by (simp add: array_get_def)
  have t: "testFunc options onClick rnd h = onClick (?ys ! nat ?i) (h @ [ArrCell ?ys])"
    using testFunc_typed [OF assms(1), of onClick rnd] g by simp
  from m have m1: "?ys ! nat ?i \<in> set (entries h options)" and m2: "carries_isDivider h (?ys ! nat ?i)"
    by simp_all
  show ?thesis using f r m1 m2 t by blast
qed

theorem testFunc_picks_divider_entry_witness:
  "typed_options (snd (alloc_options [] constOptions)) (fst (alloc_options [] constOptions))
   \<and> is_double (1 / 2) \<and> (0::real) \<le> 1 / 2 \<and> (1 / 2 :: real) < 1
   \<and> list_ex (carries_isDivider (snd (alloc_options [] constOptions)))
         (entries (snd (alloc_options [] constOptions)) (fst (alloc_options [] constOptions)))
   \<and> testFunc (fst (alloc_options [] constOptions)) record_arg (1 / 2)
         (snd (alloc_options [] constOptions))
       = Inr (snd (alloc_options [] constOptions) @ [ArrCell [JRef 2], ArrCell [JRef 2]])"
proof -
  let ?h = "[ObjCell [(''value'', JStr ''a'')], ObjCell [(''value'', JStr ''b'')],
             ObjCell [(''isDivider'', JBool False)], ArrCell [JRef 0, JRef 1, JRef 2]]"
  have t: "typed_options ?h (JRef 3)" by code_simp
  have dbl: "is_double (1 / 2)" by (rule is_double_half)
  have r0: "(0::real) \<le> 1 / 2" by simp
  have r1: "(1 / 2 :: real) < 1" by simp
  have d: "list_ex (carries_isDivider ?h) (entries ?h (JRef 3))" by code_simp
  have c: "filter (carries_isDivider ?h) (entries ?h (JRef 3)) = [JRef 2]" by code_simp
  have i: "randomIndex (1 / 2) (length [JRef 2]) = 0" by (simp add: randomIndex_half)
  have g: "[JRef 2] ! nat 0 = JRef 2" by simp
  have rc: "record_arg (JRef 2) (?h @ [ArrCell [JRef 2]]) = Inr (?h @ [ArrCell [JRef 2], ArrCell [JRef 2]])"
    by (simp add: record_arg_def)
  note T = testFunc_picks_divider_entry [OF t dbl r0 r1 d, of record_arg, unfolded c i g rc]
  from T have run: "testFunc (JRef 3) record_arg (1 / 2) ?h
                    = Inr (?h @ [ArrCell [JRef 2], ArrCell [JRef 2]])"
    by (elim conjE)
  from t dbl r0 r1 d run show ?thesis
    unfolding alloc_constOptions fst_conv snd_conv by (intro conjI)
qed

text \<open>The type of \<^verbatim>\<open>options\<close> matters: on an array that holds a string,
  which the static type excludes, the \<^verbatim>\<open>in\<close> operator raises a TypeError.\<close>

lemma testFunc_untyped_TypeError:
  "testFunc (JRef 0) record_arg (1 / 2) [ArrCell [JStr ''a'']] = Inl TypeError"
  by (simp add: testFunc_def deref_def isDivider_in_def)



text \<open>
  C8.  \<^verbatim>\<open>testFunc\<close> itself changes no cell of the store: it hands to the
  callback the store it received, extended by the new filtered array.  So with a
  callback that leaves the cells it finds as they are, after the call the
  options array and every object in it are what they were.
\<close>

theorem testFunc_keeps_options:
  assumes "typed_options h options"
  shows "(\<exists>arg ys. testFunc options onClick rnd h = onClick arg (h @ [ArrCell ys]))
       \<and> ((\<forall>v s s'. onClick v s = Inr s' \<longrightarrow> take (length s) s' = s) \<longrightarrow>
            (\<forall>h'. testFunc options onClick rnd h = Inr h' \<longrightarrow>
               take (length h) h' = h
               \<and> deref h' options = deref h options
               \<and> (\<forall>x \<in> set (entries h options). deref h' x = deref h x)))"
proof (intro conjI impI allI)
  show "\<exists>arg ys. testFunc options onClick rnd h = onClick arg (h @ [ArrCell ys])"
    using testFunc_typed [OF assms, of onClick rnd] by blast
next
  fix h'
  assume cb: "\<forall>v s s'. onClick v s = Inr s' \<longrightarrow> take (length s) s' = s"
    and run: "testFunc options onClick rnd h = Inr h'"
  let ?ys = "filter (carries_isDivider h) (entries h options)"
  from run testFunc_typed [OF assms, of onClick rnd]
  have "onClick (array_get ?ys (randomIndex rnd (length ?ys))) (h @ [ArrCell ?ys]) = Inr h'" by simp
  with cb have "take (length (h @ [ArrCell ?ys])) h' = h @ [ArrCell ?ys]" by blast
  then have "take (length h) (take (length (h @ [ArrCell ?ys])) h') = take (length h) (h @ [ArrCell ?ys])"
    by simp
  then show p: "take (length h) h' = h" by (simp add: min_def)
  from assms obtain xs where xs: "deref h options = Some (ArrCell xs)"
    and objs: "list_all (is_object h) xs"
    by (auto simp: typed_options_def split: option.splits cell.splits)
  show "deref h' options = deref h options"
    using deref_prefix [OF xs p] xs by simp
  show "\<forall>x \<in> set (entries h options). deref h' x = deref h x"
  proof
    fix x assume "x \<in> set (entries h options)"
    then have "x \<in> set xs" by (simp add: entries_def xs)
    with objs have "is_object h x" by (simp add: list_all_iff)
    then obtain ps where d: "deref h x = Some (ObjCell ps)"
      by (auto simp: is_object_def split: option.splits cell.splits)
    from deref_prefix [OF d p] d show "deref h' x = deref h x" by simp
  qed
qed

theorem testFunc_keeps_options_witness:
  "typed_options (snd (alloc_options [] constOptions)) (fst (alloc_options [] constOptions))
   \<and> testFunc (fst (alloc_options [] constOptions)) record_arg (1 / 2)
         (snd (alloc_options [] constOptions))
       = Inr (snd (alloc_options [] constOptions) @ [ArrCell [JRef 2], ArrCell [JRef 2]])
   \<and> take (length (snd (alloc_options [] constOptions)))
         (snd (alloc_options [] constOptions) @ [ArrCell [JRef 2], ArrCell [JRef 2]])
       = snd (alloc_options [] constOptions)
   \<and> deref (snd (alloc_options [] constOptions) @ [ArrCell [JRef 2], ArrCell [JRef 2]])
         (fst (alloc_options [] constOptions))
       = deref (snd (alloc_options [] constOptions)) (fst (alloc_options [] constOptions))
   \<and> deref (snd (alloc_options [] constOptions) @ [ArrCell [JRef 2], ArrCell [JRef 2]]) (JRef 2)
       = deref (snd (alloc_options [] constOptions)) (JRef 2)"
proof -
  let ?h = "[ObjCell [(''value'', JStr ''a'')], ObjCell [(''value'', JStr ''b'')],
             ObjCell [(''isDivider'', JBool False)], ArrCell [JRef 0, JRef 1, JRef 2]]"
  have t: "typed_options ?h (JRef 3)" by code_simp
  have cb: "\<forall>v s s'. record_arg v s = Inr s' \<longrightarrow> take (length s) s' = s"
    by (auto simp: record_arg_def)
  have c: "filter (carries_isDivider ?h) (entries ?h (JRef 3)) = [JRef 2]" by code_simp
  have i: "randomIndex (1 / 2) (length [JRef 2]) = 0" by (simp add: randomIndex_half)
  have g: "array_get [JRef 2] 0 = JRef 2" by (simp add: array_get_def)
  have rc: "record_arg (JRef 2) (?h @ [ArrCell [JRef 2]]) = Inr (?h @ [ArrCell [JRef 2], ArrCell [JRef 2]])"
    by (simp add: record_arg_def)
  note run = testFunc_typed [OF t, of record_arg "1 / 2", unfolded c i g rc]
  have e: "JRef 2 \<in> set (entries ?h (JRef 3))" by code_simp
  from testFunc_keeps_options [OF t, of record_arg "1 / 2", THEN conjunct2, THEN mp, OF cb,
      THEN spec, THEN mp, OF run]
  have k: "take (length ?h) (?h @ [ArrCell [JRef 2], ArrCell [JRef 2]]) = ?h
         \<and> deref (?h @ [ArrCell [JRef 2], ArrCell [JRef 2]]) (JRef 3) = deref ?h (JRef 3)
         \<and> (\<forall>x \<in> set (entries ?h (JRef 3)).
               deref (?h @ [ArrCell [JRef 2], ArrCell [JRef 2]]) x = deref ?h x)" .
  from k e have k2: "deref (?h @ [ArrCell [JRef 2], ArrCell [JRef 2]]) (JRef 2) = deref ?h (JRef 2)"
    by blast
  from k have k0: "take (length ?h) (?h @ [ArrCell [JRef 2], ArrCell [JRef 2]]) = ?h"
    and k1: "deref (?h @ [ArrCell [JRef 2], ArrCell [JRef 2]]) (JRef 3) = deref ?h (JRef 3)"
    by blast+
  from t run k0 k1 k2 show ?thesis
    unfolding alloc_constOptions fst_conv snd_conv by (intro conjI)
qed

text \<open>
  C9.  When no element of the options array has the key \<^verbatim>\<open>isDivider\<close>,
  the filtered array is empty, the random index is 0 whatever the draw, the read
  out of range gives \<^verbatim>\<open>undefined\<close>, and the callback is called with
  \<^verbatim>\<open>undefined\<close>.
\<close>

theorem testFunc_no_divider:
  assumes "typed_options h options"
    and "list_all (\<lambda>x. \<not> carries_isDivider h x) (entries h options)"
  shows "filter_isDivider h (entries h options) = Inr []
       \<and> randomIndex rnd (length ([] :: jsval list)) = 0
       \<and> array_get [] (randomIndex rnd 0) = JUndefined
       \<and> testFunc options onClick rnd h = onClick JUndefined (h @ [ArrCell []])"
proof -
  from assms(1) have objs: "list_all (is_object h) (entries h options)"
    by (auto simp: typed_options_def entries_def split: option.splits cell.splits)
  from assms(2) have none: "filter (carries_isDivider h) (entries h options) = []"
    by (induction "entries h options") (auto simp: list_all_iff filter_empty_conv)
  show ?thesis
    using testFunc_typed [OF assms(1), of onClick rnd]
    by (simp add: filter_isDivider_objects [OF objs] none randomIndex_zero array_get_def)
qed

theorem testFunc_no_divider_witness:
  "typed_options [ObjCell [(''value'', JStr ''a'')], ArrCell [JRef 0]] (JRef 1)
   \<and> testFunc (JRef 1) record_arg (1 / 2) [ObjCell [(''value'', JStr ''a'')], ArrCell [JRef 0]]
       = Inr [ObjCell [(''value'', JStr ''a'')], ArrCell [JRef 0], ArrCell [], ArrCell [JUndefined]]"
proof -
  let ?h = "[ObjCell [(''value'', JStr ''a'')], ArrCell [JRef 0]]"
  have t: "typed_options ?h (JRef 1)"
    by (simp add: typed_options_def deref_def is_object_def)
  have n: "list_all (\<lambda>x. \<not> carries_isDivider ?h x) (entries ?h (JRef 1))"
    by (simp add: entries_def deref_def carries_isDivider_def isDivider_in_def)
  show ?thesis
    using t testFunc_no_divider [OF t n, of "1 / 2" record_arg]
    by (simp add: record_arg_def)
qed

end
